theory Spec2Isabelle
  imports Main
begin

section \<open>Strings and numbers as the program uses them\<close>

text \<open>
  The program is a Node.js script in three variants: \<^verbatim>\<open>index.js\<close>,
  \<^verbatim>\<open>github-pr-monitor.js\<close> and a third script, called the discovery variant below,
  which looks for open pull requests like the second and retries like the first. Strings
  are character lists. \<^verbatim>\<open>toLowerCase\<close> is modelled on
  the ASCII letters; a character with a code of 128 or more is left as it is. (ECMAScript
  lowers other letters too, but never to one of the letters that occur in the state names
  the program compares with, so the comparisons below come out the same.)
\<close>

definition lower_char :: "char \<Rightarrow> char" where
  "lower_char c =
     (let n = (of_char c :: nat) in if 65 \<le> n \<and> n \<le> 90 then char_of (n + 32) else c)"

definition toLowerCase :: "string \<Rightarrow> string" where
  "toLowerCase s = map lower_char s"

text \<open>\<^verbatim>\<open>a || b\<close> on an optional string: an absent or empty \<open>a\<close> is falsy.\<close>

definition or_default :: "string option \<Rightarrow> string \<Rightarrow> string" where
  "or_default v d = (case v of None \<Rightarrow> d | Some s \<Rightarrow> if s = [] then d else s)"

text \<open>\<^verbatim>\<open>Array.prototype.join\<close> on an array of strings.\<close>

fun join :: "string \<Rightarrow> string list \<Rightarrow> string" where
  "join sep [] = []"
| "join sep [x] = x"
| "join sep (x # y # ys) = x @ sep @ join sep (y # ys)"

text \<open>Decimal rendering of an integer inside a template literal.\<close>

fun show_nat :: "nat \<Rightarrow> string" where
  "show_nat n =
     (if n < 10 then [char_of (48 + n)] else show_nat (n div 10) @ [char_of (48 + n mod 10)])"

definition show_int :: "int \<Rightarrow> string" where
  "show_int i = (if i < 0 then CHR ''-'' # show_nat (nat (- i)) else show_nat (nat i))"

text \<open>The remainder operator \<^verbatim>\<open>%\<close> of JavaScript takes the sign of the dividend.\<close>

definition js_rem :: "int \<Rightarrow> int \<Rightarrow> int" where
  "js_rem a b = sgn a * (\<bar>a\<bar> mod \<bar>b\<bar>)"

text \<open>
  \<^verbatim>\<open>formatDuration(startTime, endTime)\<close>; the two dates are milliseconds since the epoch.
  \<^verbatim>\<open>Math.floor(x / d)\<close> on an integer \<open>x\<close> and a positive \<open>d\<close> is \<open>x div d\<close>.
\<close>

definition formatDuration :: "int \<Rightarrow> int \<Rightarrow> string" where
  "formatDuration startTime endTime =
     (let durationMs = endTime - startTime;
          minutes = durationMs div 60000;
          seconds = js_rem durationMs 60000 div 1000
      in if minutes > 0 then show_int minutes @ ''m '' @ show_int seconds @ ''s''
         else show_int seconds @ ''s'')"

text \<open>
  The regular expression \<^verbatim>\<open>/\/pull\/(\d+)/\<close> of \<^verbatim>\<open>prUrl.match\<close>: the leftmost
  \<^verbatim>\<open>/pull/\<close> that a digit follows, and the longest run of digits after it.
\<close>

definition is_digit :: "char \<Rightarrow> bool" where
  "is_digit c = (let n = (of_char c :: nat) in 48 \<le> n \<and> n \<le> 57)"

fun match_pull :: "string \<Rightarrow> string option" where
  "match_pull [] = None"
| "match_pull (c # cs) =
     (if take 6 (c # cs) = ''/pull/'' \<and> (case drop 6 (c # cs) of [] \<Rightarrow> False | d # _ \<Rightarrow> is_digit d)
      then Some (takeWhile is_digit (drop 6 (c # cs)))
      else match_pull cs)"

section \<open>Checks and their display glyph\<close>

text \<open>
  One element of the JSON array printed by \<^verbatim>\<open>gh pr checks --json name,state,description,link\<close>.
  A field that is missing or null is \<open>None\<close>.
\<close>

record check =
  name :: "string option"
  state :: "string option"
  description :: "string option"
  link :: "string option"

text \<open>
  The five emoji of \<^verbatim>\<open>getStatusEmoji\<close>: white heavy check mark (U+2705), cross mark
  (U+274C), yellow circle (U+1F7E1), white circle (U+26AA) and question mark ornament (U+2753).
\<close>

datatype emoji = CheckMark | CrossMark | YellowCircle | WhiteCircle | QuestionMark

definition getStatusEmoji :: "string \<Rightarrow> emoji" where
  "getStatusEmoji status =
     (let s = toLowerCase status in
      if s = ''success'' \<or> s = ''completed'' then CheckMark
      else if s = ''failure'' \<or> s = ''failed'' then CrossMark
      else if s = ''pending'' \<or> s = ''in_progress'' then YellowCircle
      else if s = ''cancelled'' then WhiteCircle
      else QuestionMark)"

section \<open>checkAllChecksStatus\<close>

text \<open>
  The local variables of \<^verbatim>\<open>checkAllChecksStatus\<close> that the \<^verbatim>\<open>forEach\<close> callback
  updates. (\<open>anyFailures\<close> is the local \<^verbatim>\<open>hasFailures\<close>; the field of the returned object
  has that name below.)
\<close>

record tally =
  allCompleted :: bool
  anyFailures :: bool
  pendingChecks :: "string list"
  completedChecks :: "string list"
  failedChecks :: "string list"

definition status_of :: "check \<Rightarrow> string" where
  "status_of c = or_default (state c) ''unknown''"

definition context_of :: "check \<Rightarrow> string" where
  "context_of c = or_default (name c) ''Unknown Check''"

text \<open>The callback of \<^verbatim>\<open>checks.forEach\<close>, without its console output.\<close>

definition categorize :: "check \<Rightarrow> tally \<Rightarrow> tally" where
  "categorize c t =
     (let status = status_of c; context = context_of c in
      if toLowerCase status \<in> set [''pending'', ''in_progress'']
      then t\<lparr>allCompleted := False, pendingChecks := pendingChecks t @ [context]\<rparr>
      else if toLowerCase status \<in> set [''failure'', ''failed'', ''cancelled'']
      then t\<lparr>anyFailures := True, failedChecks := failedChecks t @ [context]\<rparr>
      else if toLowerCase status \<in> set [''success'', ''completed'']
      then t\<lparr>completedChecks := completedChecks t @ [context]\<rparr>
      else t)"

definition initial_tally :: tally where
  "initial_tally =
     \<lparr>allCompleted = True, anyFailures = False, pendingChecks = [], completedChecks = [],
      failedChecks = []\<rparr>"

text \<open>
  The three-way decision of the callback on its own: which of the three lists a raw state
  goes to, or none of them (\<open>Unlisted\<close>).
\<close>

datatype bucket = Pending | Failure | Success | Unlisted

definition classify :: "string \<Rightarrow> bucket" where
  "classify status =
     (if toLowerCase status \<in> set [''pending'', ''in_progress''] then Pending
      else if toLowerCase status \<in> set [''failure'', ''failed'', ''cancelled''] then Failure
      else if toLowerCase status \<in> set [''success'', ''completed''] then Success
      else Unlisted)"

text \<open>
  The object that \<^verbatim>\<open>checkAllChecksStatus\<close> returns. The field \<^verbatim>\<open>summary.completed\<close> is
  \<open>completedNames\<close> here, since \<open>completed\<close> is the flag of the outer object.
\<close>

record summary =
  total :: nat
  pending :: "string list"
  completedNames :: "string list"
  failed :: "string list"

record result =
  completed :: bool
  hasFailures :: bool
  checks :: "check list"
  prNumber :: string
  summary :: summary

text \<open>
  Every failure of \<^verbatim>\<open>checkAllChecksStatus\<close> returns the same object \<^verbatim>\<open>{ error: true }\<close>;
  the constructors tell the places apart that return it.
\<close>

datatype error = NoUrl | NoSelection | InvalidReference | FetchError | EmptyCheckSet

text \<open>
  From the length test on the parsed array to the returned object: the part of
  \<^verbatim>\<open>checkAllChecksStatus\<close> that turns the list of checks into the summary.
\<close>

definition aggregate :: "string \<Rightarrow> check list \<Rightarrow> error + result" where
  "aggregate prNum cs =
     (if length cs = 0 then Inl EmptyCheckSet
      else let t = fold categorize cs initial_tally in
        Inr \<lparr>completed = allCompleted t, hasFailures = anyFailures t, checks = cs,
             prNumber = prNum,
             summary = \<lparr>total = length cs, pending = pendingChecks t,
                        completedNames = completedChecks t, failed = failedChecks t\<rparr>\<rparr>)"

text \<open>
  What \<^verbatim>\<open>JSON.parse(execSync(...))\<close> gives: \<open>CommandFailed\<close> when the command or the
  parser throws (the \<^verbatim>\<open>catch\<close> block returns the error object), the array otherwise.
\<close>

datatype gh_output = CommandFailed | Listing "check list"

text \<open>\<^verbatim>\<open>checkAllChecksStatus\<close> from the match of the URL on; the same text in all variants.\<close>

definition check_url :: "string \<Rightarrow> gh_output \<Rightarrow> error + result" where
  "check_url prUrl out =
     (case match_pull prUrl of
        None \<Rightarrow> Inl InvalidReference
      | Some prNum \<Rightarrow>
          (case out of CommandFailed \<Rightarrow> Inl FetchError | Listing cs \<Rightarrow> aggregate prNum cs))"

text \<open>\<^verbatim>\<open>checkAllChecksStatus\<close> of \<^verbatim>\<open>index.js\<close>: no URL is an error.\<close>

definition checkAllChecksStatus :: "string option \<Rightarrow> gh_output \<Rightarrow> error + result" where
  "checkAllChecksStatus prUrl out =
     (case prUrl of
        None \<Rightarrow> Inl NoUrl
      | Some u \<Rightarrow> if u = [] then Inl NoUrl else check_url u out)"

section \<open>Discovery variants of checkAllChecksStatus\<close>

text \<open>
  In \<^verbatim>\<open>github-pr-monitor.js\<close> and in the discovery variant a call without a URL asks the
  pull-request discovery and the terminal prompt (\<^verbatim>\<open>getOpenPRs\<close>, \<^verbatim>\<open>selectPR\<close>,
  \<^verbatim>\<open>promptUserForPR\<close>, \<^verbatim>\<open>promptForPRUrl\<close>) for one. Their joint outcome is a parameter:
  a URL, nothing (the call returns the error object), or \<^verbatim>\<open>process.exit\<close> with a code
  (an invalid menu choice exits with 1; no open pull request exits with 0 in the discovery
  variant).
\<close>

datatype selection = Chosen string | Declined | Quit nat

datatype 'a call = ProcessExit nat | Return 'a

definition select_url :: "selection \<Rightarrow> gh_output \<Rightarrow> (error + result) call" where
  "select_url sel out =
     (case sel of
        Quit n \<Rightarrow> ProcessExit n
      | Declined \<Rightarrow> Return (Inl NoSelection)
      | Chosen u \<Rightarrow> if u = [] then Return (Inl NoSelection) else Return (check_url u out))"

definition checkAllChecksStatus_discover ::
  "string option \<Rightarrow> selection \<Rightarrow> gh_output \<Rightarrow> (error + result) call" where
  "checkAllChecksStatus_discover prUrl sel out =
     (case prUrl of
        None \<Rightarrow> select_url sel out
      | Some u \<Rightarrow> if u = [] then select_url sel out else Return (check_url u out))"

section \<open>The monitor loop\<close>

text \<open>
  A run is the list of what the loop does, in order, and how it stands at the end. The
  lines that \<^verbatim>\<open>monitorAllChecksStatus\<close> prints are told apart by the statement that prints
  them and carry the values put into the text (a clock time rendered by
  \<^verbatim>\<open>toLocaleTimeString\<close> is left out). \<open>Poll\<close> is one call of \<^verbatim>\<open>checkAllChecksStatus\<close>
  with whatever it prints, \<open>SendNotification message type\<close> one call of
  \<^verbatim>\<open>sendNotification\<close>, \<open>Wait ms\<close> one awaited \<^verbatim>\<open>setTimeout\<close>.
\<close>

datatype line =
    Starting | CheckingEvery | StartedAt | PressCtrlC | Usage
  | CheckHeader nat
  | ErrorRetry | ErrorExit
  | SummaryHeading | TotalChecks nat | CompletedCount nat | FailedCount nat
  | Outcome string | TotalTime string nat | FailedChecks string
  | Progress nat nat | StillPending string | FailedSoFar string
  | Waiting
  | NowRepeating | NotificationSent nat

datatype event = Print line | Poll | SendNotification string string | Wait nat

text \<open>
  \<open>Running\<close>: the fuel is used up and the loop is still going. \<open>Returned\<close>: the function
  has returned. \<open>Exited n\<close>: \<^verbatim>\<open>process.exit(n)\<close> was called.
\<close>

datatype status = Running | Returned | Exited nat

type_synonym run = "event list \<times> status"

fun prepend :: "event list \<Rightarrow> run \<Rightarrow> run" where
  "prepend es (tr, st) = (es @ tr, st)"

text \<open>
  What the world outside supplies to the \<open>n\<close>-th call of \<^verbatim>\<open>checkAllChecksStatus\<close>: the
  output of the \<^verbatim>\<open>gh\<close> command, the outcome of the selection (asked for only without a
  URL), and the clock read by \<^verbatim>\<open>new Date()\<close> when the call has returned.
\<close>

record poll_input =
  gh_out :: gh_output
  picked :: selection
  now :: int

definition failure_message :: "result \<Rightarrow> string" where
  "failure_message r = ''All checks completed with failures for PR #'' @ prNumber r"

definition success_message :: "result \<Rightarrow> string" where
  "success_message r = ''All checks completed successfully for PR #'' @ prNumber r"

definition completed_in :: "string \<Rightarrow> string \<Rightarrow> string" where
  "completed_in message duration = message @ [CHR 0x0A] @ ''Completed in '' @ duration"

text \<open>The branch \<^verbatim>\<open>result.completed\<close> of the loop body, up to its notification.\<close>

definition report_completion :: "int \<Rightarrow> int \<Rightarrow> nat \<Rightarrow> result \<Rightarrow> event list" where
  "report_completion startTime endTime checkCount r =
     (let duration = formatDuration startTime endTime in
      [Print SummaryHeading, Print (TotalChecks (total (summary r)))] @
      (if length (completedNames (summary r)) > 0
       then [Print (CompletedCount (length (completedNames (summary r))))] else []) @
      (if length (failed (summary r)) > 0
       then [Print (FailedCount (length (failed (summary r))))] else []) @
      (if hasFailures r then
         (let message = failure_message r in
          [Print (Outcome message), Print (TotalTime duration checkCount)] @
          (if length (failed (summary r)) > 0
           then [Print (FailedChecks (join '', '' (failed (summary r))))] else []) @
          [SendNotification (completed_in message duration) ''failure''])
       else
         (let message = success_message r in
          [Print (Outcome message), Print (TotalTime duration checkCount),
           SendNotification (completed_in message duration) ''success''])))"

text \<open>The last branch of the loop body: the progress lines.\<close>

definition report_progress :: "result \<Rightarrow> event list" where
  "report_progress r =
     [Print (Progress (length (completedNames (summary r))) (total (summary r)))] @
     (if length (pending (summary r)) > 0
      then [Print (StillPending (join '', '' (pending (summary r))))] else []) @
     (if length (failed (summary r)) > 0
      then [Print (FailedSoFar (join '', '' (failed (summary r))))] else [])"

text \<open>
  The \<^verbatim>\<open>while (true)\<close> loop of \<^verbatim>\<open>monitorAllChecksStatus\<close> in \<^verbatim>\<open>index.js\<close>. Each
  iteration takes one unit of fuel; \<open>checkCount\<close> is the counter before the iteration.
\<close>

fun monitor_loop :: "nat \<Rightarrow> string option \<Rightarrow> int \<Rightarrow> (nat \<Rightarrow> poll_input) \<Rightarrow> nat \<Rightarrow> run" where
  "monitor_loop 0 prUrl startTime env checkCount = ([], Running)"
| "monitor_loop (Suc fuel) prUrl startTime env checkCount =
     (let checkCount = checkCount + 1; inp = env checkCount in
      case checkAllChecksStatus prUrl (gh_out inp) of
        Inl e \<Rightarrow>
          prepend [Print (CheckHeader checkCount), Poll, Print ErrorRetry, Print Waiting, Wait 20000]
            (monitor_loop fuel prUrl startTime env checkCount)
      | Inr r \<Rightarrow>
          if completed r
          then ([Print (CheckHeader checkCount), Poll] @
                report_completion startTime (now inp) checkCount r, Returned)
          else prepend ([Print (CheckHeader checkCount), Poll] @ report_progress r @
                        [Print Waiting, Wait 20000])
                 (monitor_loop fuel prUrl startTime env checkCount))"

definition monitorAllChecksStatus ::
  "nat \<Rightarrow> string option \<Rightarrow> int \<Rightarrow> (nat \<Rightarrow> poll_input) \<Rightarrow> run" where
  "monitorAllChecksStatus fuel prUrl startTime env =
     prepend [Print Starting, Print CheckingEvery, Print StartedAt, Print PressCtrlC]
       (monitor_loop fuel prUrl startTime env 0)"

text \<open>The same loop in the discovery variant: its own \<^verbatim>\<open>checkAllChecksStatus\<close>.\<close>

fun monitor_loop_discover ::
  "nat \<Rightarrow> string option \<Rightarrow> int \<Rightarrow> (nat \<Rightarrow> poll_input) \<Rightarrow> nat \<Rightarrow> run" where
  "monitor_loop_discover 0 prUrl startTime env checkCount = ([], Running)"
| "monitor_loop_discover (Suc fuel) prUrl startTime env checkCount =
     (let checkCount = checkCount + 1; inp = env checkCount in
      case checkAllChecksStatus_discover prUrl (picked inp) (gh_out inp) of
        ProcessExit n \<Rightarrow> ([Print (CheckHeader checkCount), Poll], Exited n)
      | Return (Inl e) \<Rightarrow>
          prepend [Print (CheckHeader checkCount), Poll, Print ErrorRetry, Print Waiting, Wait 20000]
            (monitor_loop_discover fuel prUrl startTime env checkCount)
      | Return (Inr r) \<Rightarrow>
          if completed r
          then ([Print (CheckHeader checkCount), Poll] @
                report_completion startTime (now inp) checkCount r, Returned)
          else prepend ([Print (CheckHeader checkCount), Poll] @ report_progress r @
                        [Print Waiting, Wait 20000])
                 (monitor_loop_discover fuel prUrl startTime env checkCount))"

definition monitorAllChecksStatus_discover ::
  "nat \<Rightarrow> string option \<Rightarrow> int \<Rightarrow> (nat \<Rightarrow> poll_input) \<Rightarrow> run" where
  "monitorAllChecksStatus_discover fuel prUrl startTime env =
     prepend [Print Starting, Print CheckingEvery, Print StartedAt, Print PressCtrlC]
       (monitor_loop_discover fuel prUrl startTime env 0)"

subsection \<open>github-pr-monitor.js: repeated notifications\<close>

text \<open>
  The two characters that the source text of \<^verbatim>\<open>github-pr-monitor.js\<close> has before
  \<^verbatim>\<open> Failed: \<close> in the repeated notification (U+00E2 and U+0152, what is left of a
  cross mark read in the wrong encoding), as the four bytes of their UTF-8 form.
\<close>

definition failed_mark :: string where
  "failed_mark = [CHR 0xC3, CHR 0xA2, CHR 0xC5, CHR 0x92]"

text \<open>
  \<^verbatim>\<open>startContinuousNotifications\<close>: a \<^verbatim>\<open>while (true)\<close> loop with no exit; each round takes
  one unit of fuel. \<open>notificationCount\<close> is the counter before the round.
\<close>

fun startContinuousNotifications :: "nat \<Rightarrow> result \<Rightarrow> string \<Rightarrow> string \<Rightarrow> nat \<Rightarrow> run" where
  "startContinuousNotifications 0 r completionDuration completionType notificationCount =
     ([], Running)"
| "startContinuousNotifications (Suc fuel) r completionDuration completionType notificationCount =
     (let notificationCount = notificationCount + 1;
          message = (if completionType = ''success'' then success_message r
                     else failure_message r);
          message = completed_in message completionDuration;
          message = (if length (failed (summary r)) > 0
                     then message @ [CHR 0x0A] @ failed_mark @ '' Failed: '' @
                          join '', '' (failed (summary r))
                     else message)
      in prepend [Print (NotificationSent notificationCount), SendNotification message ''repeat'',
                  Wait 20000]
           (startContinuousNotifications fuel r completionDuration completionType
              notificationCount))"

text \<open>
  The loop of \<^verbatim>\<open>monitorAllChecksStatus\<close> in \<^verbatim>\<open>github-pr-monitor.js\<close>: an error result
  ends the process, and a completed result goes on into the repeated notifications (the
  \<^verbatim>\<open>break\<close> after them is never reached).
\<close>

fun monitor_loop_repeat ::
  "nat \<Rightarrow> string option \<Rightarrow> int \<Rightarrow> (nat \<Rightarrow> poll_input) \<Rightarrow> nat \<Rightarrow> run" where
  "monitor_loop_repeat 0 prUrl startTime env checkCount = ([], Running)"
| "monitor_loop_repeat (Suc fuel) prUrl startTime env checkCount =
     (let checkCount = checkCount + 1; inp = env checkCount in
      case checkAllChecksStatus_discover prUrl (picked inp) (gh_out inp) of
        ProcessExit n \<Rightarrow> ([Print (CheckHeader checkCount), Poll], Exited n)
      | Return (Inl e) \<Rightarrow> ([Print (CheckHeader checkCount), Poll, Print ErrorExit], Exited 1)
      | Return (Inr r) \<Rightarrow>
          if completed r
          then prepend ([Print (CheckHeader checkCount), Poll] @
                        report_completion startTime (now inp) checkCount r @
                        [Print NowRepeating, Print PressCtrlC])
                 (startContinuousNotifications fuel r (formatDuration startTime (now inp))
                    (if hasFailures r then ''failure'' else ''success'') 0)
          else prepend ([Print (CheckHeader checkCount), Poll] @ report_progress r @
                        [Print Waiting, Wait 20000])
                 (monitor_loop_repeat fuel prUrl startTime env checkCount))"

definition monitorAllChecksStatus_repeat ::
  "nat \<Rightarrow> string option \<Rightarrow> int \<Rightarrow> (nat \<Rightarrow> poll_input) \<Rightarrow> run" where
  "monitorAllChecksStatus_repeat fuel prUrl startTime env =
     prepend [Print Starting, Print CheckingEvery, Print StartedAt, Print PressCtrlC]
       (monitor_loop_repeat fuel prUrl startTime env 0)"

section \<open>The entry points\<close>

text \<open>\<^verbatim>\<open>process.argv[2]\<close>: undefined when the list is shorter.\<close>

definition argv_prUrl :: "string list \<Rightarrow> string option" where
  "argv_prUrl argv = (if 2 < length argv then Some (argv ! 2) else None)"

text \<open>
  The top level of \<^verbatim>\<open>index.js\<close>. In single mode the value that
  \<^verbatim>\<open>checkAllChecksStatus\<close> returns is not used. The single call is the first call, so it
  reads \<open>env 1\<close>.
\<close>

definition main_index :: "string list \<Rightarrow> nat \<Rightarrow> int \<Rightarrow> (nat \<Rightarrow> poll_input) \<Rightarrow> run" where
  "main_index argv fuel startTime env =
     (let prUrl = argv_prUrl argv; singleCheck = (''--single'' \<in> set argv) in
      if singleCheck
      then (case checkAllChecksStatus prUrl (gh_out (env 1)) of
              Inl e \<Rightarrow> ([Poll], Returned) | Inr r \<Rightarrow> ([Poll], Returned))
      else monitorAllChecksStatus fuel prUrl startTime env)"

text \<open>
  The top level and \<^verbatim>\<open>main\<close> of \<^verbatim>\<open>github-pr-monitor.js\<close>. The handler of
  \<^verbatim>\<open>main().catch\<close> exits with 1 when \<^verbatim>\<open>main\<close> rejects; \<^verbatim>\<open>checkAllChecksStatus\<close>
  catches every exception itself, so no branch below leads there.
\<close>

definition main_repeat :: "string list \<Rightarrow> nat \<Rightarrow> int \<Rightarrow> (nat \<Rightarrow> poll_input) \<Rightarrow> run" where
  "main_repeat argv fuel startTime env =
     (let prUrl = argv_prUrl argv; singleCheck = (''--single'' \<in> set argv);
          help = (''--help'' \<in> set argv \<or> ''-h'' \<in> set argv) in
      if help then ([Print Usage], Exited 0)
      else if singleCheck
      then (case checkAllChecksStatus_discover prUrl (picked (env 1)) (gh_out (env 1)) of
              ProcessExit n \<Rightarrow> ([Poll], Exited n) | Return v \<Rightarrow> ([Poll], Returned))
      else monitorAllChecksStatus_repeat fuel prUrl startTime env)"

text \<open>
  The exit code of the process: the argument of \<^verbatim>\<open>process.exit\<close>, or 0 when the script
  has run to its end (nothing sets \<^verbatim>\<open>process.exitCode\<close>); none while the loop runs.
\<close>

fun exit_code :: "status \<Rightarrow> nat option" where
  "exit_code Running = None"
| "exit_code Returned = Some 0"
| "exit_code (Exited n) = Some n"

section \<open>Reading a run\<close>

fun is_send :: "event \<Rightarrow> bool" where
  "is_send (SendNotification m t) = True"
| "is_send e = False"

fun is_poll_or_wait :: "event \<Rightarrow> bool" where
  "is_poll_or_wait Poll = True"
| "is_poll_or_wait (Wait ms) = True"
| "is_poll_or_wait e = False"

definition notifications :: "event list \<Rightarrow> event list" where
  "notifications tr = filter is_send tr"

definition schedule :: "event list \<Rightarrow> event list" where
  "schedule tr = filter is_poll_or_wait tr"

text \<open>\<open>k\<close> polls with one wait of 20000 ms between each two.\<close>

fun poll_schedule :: "nat \<Rightarrow> event list" where
  "poll_schedule 0 = []"
| "poll_schedule (Suc 0) = [Poll]"
| "poll_schedule (Suc (Suc k)) = Poll # Wait 20000 # poll_schedule (Suc k)"

text \<open>A call of \<^verbatim>\<open>checkAllChecksStatus\<close> of \<^verbatim>\<open>index.js\<close> that gives a completed result.\<close>

definition finished :: "string option \<Rightarrow> poll_input \<Rightarrow> bool" where
  "finished prUrl inp =
     (case checkAllChecksStatus prUrl (gh_out inp) of Inl e \<Rightarrow> False | Inr r \<Rightarrow> completed r)"

text \<open>The notification that the branch \<^verbatim>\<open>result.completed\<close> sends.\<close>

definition final_notification :: "int \<Rightarrow> int \<Rightarrow> result \<Rightarrow> event" where
  "final_notification startTime endTime r =
     SendNotification
       (completed_in (if hasFailures r then failure_message r else success_message r)
          (formatDuration startTime endTime))
       (if hasFailures r then ''failure'' else ''success'')"

text \<open>The type argument of a call of \<^verbatim>\<open>sendNotification\<close>.\<close>

fun notification_type :: "event \<Rightarrow> string" where
  "notification_type (SendNotification m t) = t"
| "notification_type e = []"

text \<open>
  A call of \<^verbatim>\<open>checkAllChecksStatus\<close> of the discovery variants that gives a result which
  is not completed.
\<close>

definition progressing :: "string option \<Rightarrow> poll_input \<Rightarrow> bool" where
  "progressing prUrl inp =
     (case checkAllChecksStatus_discover prUrl (picked inp) (gh_out inp) of
        Return (Inr r) \<Rightarrow> \<not> completed r
      | Return (Inl e) \<Rightarrow> False
      | ProcessExit n \<Rightarrow> False)"

text \<open>A poll in which the command fails or lists no check.\<close>

definition fetch_fails :: "poll_input \<Rightarrow> bool" where
  "fetch_fails inp = (gh_out inp = CommandFailed \<or> gh_out inp = Listing [])"

section \<open>Sample inputs\<close>

definition sample_url :: string where
  "sample_url = ''https://github.com/o/r/pull/12''"

definition sample_check :: "string \<Rightarrow> string option \<Rightarrow> check" where
  "sample_check n s = \<lparr>name = Some n, state = s, description = None, link = None\<rparr>"

definition sample_input :: "gh_output \<Rightarrow> int \<Rightarrow> poll_input" where
  "sample_input out t = \<lparr>gh_out = out, picked = Declined, now = t\<rparr>"

definition three_polls :: "nat \<Rightarrow> poll_input" where
  "three_polls n =
     (if n < 3 then sample_input (Listing [sample_check ''build'' (Some ''PENDING'')]) (20000 * int n)
      else sample_input (Listing [sample_check ''build'' (Some ''SUCCESS'')]) (20000 * int n + 1500))"

definition failing_polls :: "nat \<Rightarrow> poll_input" where
  "failing_polls n = sample_input (if even n then Listing [] else CommandFailed) (20000 * int n)"

definition discovered_polls :: "nat \<Rightarrow> poll_input" where
  "discovered_polls n =
     \<lparr>gh_out = (if even n then Listing [] else CommandFailed), picked = Chosen sample_url,
      now = 20000 * int n\<rparr>"

definition done_polls :: "nat \<Rightarrow> poll_input" where
  "done_polls n = sample_input (Listing [sample_check ''build'' (Some ''SUCCESS'')]) 5000"

definition unlisted_polls :: "nat \<Rightarrow> poll_input" where
  "unlisted_polls n =
     sample_input (Listing [sample_check ''lint'' (Some ''SKIPPED''), sample_check ''docs'' None]) 5000"

section \<open>Letter case and buckets\<close>

definition is_upper :: "char \<Rightarrow> bool" where
  "is_upper c = (let n = (of_char c :: nat) in 65 \<le> n \<and> n \<le> 90)"

text \<open>
  Two characters that are equal, or an upper-case ASCII letter (codes 65 to 90) and the
  lower-case letter of the same name, whose code is 32 more. The relation is given by the
  character codes alone.
\<close>

definition case_variant_char :: "char \<Rightarrow> char \<Rightarrow> bool" where
  "case_variant_char a b =
     (a = b \<or> (is_upper a \<and> (of_char b :: nat) = of_char a + 32)
            \<or> (is_upper b \<and> (of_char a :: nat) = of_char b + 32))"

definition differs_only_in_case :: "string \<Rightarrow> string \<Rightarrow> bool" where
  "differs_only_in_case s t = list_all2 case_variant_char s t"

definition in_bucket :: "bucket \<Rightarrow> check \<Rightarrow> bool" where
  "in_bucket b c = (classify (status_of c) = b)"

section \<open>Lower case and the classification\<close>

lemma lower_char_idem: "lower_char (lower_char c) = lower_char c"
  by (simp add: lower_char_def Let_def)

lemma lower_char_upper:
  assumes "is_upper a" and "(of_char b :: nat) = of_char a + 32"
  shows "lower_char a = b" and "lower_char b = b"
proof -
  have "char_of (of_char a + 32 :: nat) = char_of (of_char b :: nat)"
    using assms(2) by simp
  then show "lower_char a = b"
    using assms(1) by (simp add: lower_char_def is_upper_def Let_def)
  show "lower_char b = b"
    using assms by (simp add: lower_char_def is_upper_def Let_def)
qed

lemma case_variant_char_lower: "case_variant_char a b \<Longrightarrow> lower_char a = lower_char b"
  unfolding case_variant_char_def
  using lower_char_upper [of a b] lower_char_upper [of b a] by auto

lemma differs_toLowerCase: "differs_only_in_case s t \<Longrightarrow> toLowerCase s = toLowerCase t"
  unfolding differs_only_in_case_def toLowerCase_def
  by (induction s t rule: list_all2_induct) (auto dest: case_variant_char_lower)


lemma getStatusEmoji_toLowerCase:
  "toLowerCase s = toLowerCase t \<Longrightarrow> getStatusEmoji s = getStatusEmoji t"
  by (simp add: getStatusEmoji_def)

lemma lower_words:
  "toLowerCase ''success'' = ''success''" "toLowerCase ''completed'' = ''completed''"
  "toLowerCase ''failure'' = ''failure''" "toLowerCase ''failed'' = ''failed''"
  "toLowerCase ''cancelled'' = ''cancelled''" "toLowerCase ''pending'' = ''pending''"
  "toLowerCase ''in_progress'' = ''in_progress''"
  by (simp_all add: toLowerCase_def lower_char_def)

lemma classify_words:
  "classify ''success'' = Success" "classify ''completed'' = Success"
  "classify ''failure'' = Failure" "classify ''failed'' = Failure"
  "classify ''cancelled'' = Failure" "classify ''pending'' = Pending"
  "classify ''in_progress'' = Pending"
  by (simp_all add: classify_def lower_words)

lemma getStatusEmoji_classify:
  "getStatusEmoji s =
     (case classify s of
        Success \<Rightarrow> CheckMark
      | Pending \<Rightarrow> YellowCircle
      | Failure \<Rightarrow> (if toLowerCase s = ''cancelled'' then WhiteCircle else CrossMark)
      | Unlisted \<Rightarrow> QuestionMark)"
  by (simp add: getStatusEmoji_def classify_def Let_def)



text \<open>
  C8, as the claim states it, fails: \<open>cancelled\<close> is classified \<open>Failure\<close> like \<open>failure\<close>,
  but \<^verbatim>\<open>getStatusEmoji\<close> gives it the white circle, not the cross mark.
\<close>

theorem glyph_cancelled_counterexample:
  "classify ''cancelled'' = Failure \<and> classify ''failure'' = Failure \<and>
   getStatusEmoji ''failure'' = CrossMark \<and> getStatusEmoji ''cancelled'' = WhiteCircle \<and>
   getStatusEmoji ''cancelled'' \<noteq> getStatusEmoji ''failure''"
  by (simp add: classify_words getStatusEmoji_def lower_words)

text \<open>
  C8, amended. The glyph follows the classification except inside \<open>Failure\<close>: a \<open>Success\<close>
  state gets the check mark, a \<open>Pending\<close> state the yellow circle, \<open>failure\<close> and \<open>failed\<close>
  the cross mark, \<open>cancelled\<close> its own white circle, and every other string the question
  mark; strings that differ only in letter case get the same glyph.
\<close>

theorem getStatusEmoji_by_bucket:
  "getStatusEmoji s =
     (case classify s of
        Success \<Rightarrow> CheckMark
      | Pending \<Rightarrow> YellowCircle
      | Failure \<Rightarrow> (if toLowerCase s = ''cancelled'' then WhiteCircle else CrossMark)
      | Unlisted \<Rightarrow> QuestionMark) \<and>
   (differs_only_in_case s t \<longrightarrow> getStatusEmoji s = getStatusEmoji t)"
  using getStatusEmoji_classify [of s] getStatusEmoji_toLowerCase [of s t]
    differs_toLowerCase [of s t]
  by blast

theorem getStatusEmoji_by_bucket_witness:
  "differs_only_in_case ''Cancelled'' ''cancelled'' \<and>
   getStatusEmoji ''Cancelled'' = WhiteCircle \<and> getStatusEmoji ''cancelled'' = WhiteCircle"
proof -
  have a: "differs_only_in_case ''Cancelled'' ''cancelled''" by code_simp
  have b: "classify ''Cancelled'' = Failure" by code_simp
  have c: "toLowerCase ''Cancelled'' = ''cancelled''" by code_simp
  have d: "getStatusEmoji ''Cancelled'' = WhiteCircle"
    using getStatusEmoji_by_bucket [of "''Cancelled''" "''cancelled''"] by (simp add: b c)
  have e: "getStatusEmoji ''Cancelled'' = getStatusEmoji ''cancelled''"
    using getStatusEmoji_by_bucket [of "''Cancelled''" "''cancelled''"] a by blast
  show ?thesis using a d e by simp
qed

section \<open>The summary of a list of checks\<close>

lemma categorize_classify:
  "categorize c t =
     (case classify (status_of c) of
        Pending \<Rightarrow> t\<lparr>allCompleted := False, pendingChecks := pendingChecks t @ [context_of c]\<rparr>
      | Failure \<Rightarrow> t\<lparr>anyFailures := True, failedChecks := failedChecks t @ [context_of c]\<rparr>
      | Success \<Rightarrow> t\<lparr>completedChecks := completedChecks t @ [context_of c]\<rparr>
      | Unlisted \<Rightarrow> t)"
  by (simp add: categorize_def classify_def Let_def)

lemma fold_pendingChecks:
  "pendingChecks (fold categorize cs t) = pendingChecks t @ map context_of (filter (in_bucket Pending) cs)"
  by (induction cs arbitrary: t) (simp_all add: categorize_classify in_bucket_def split: bucket.splits)

lemma fold_failedChecks:
  "failedChecks (fold categorize cs t) = failedChecks t @ map context_of (filter (in_bucket Failure) cs)"
  by (induction cs arbitrary: t) (simp_all add: categorize_classify in_bucket_def split: bucket.splits)

lemma fold_completedChecks:
  "completedChecks (fold categorize cs t) = completedChecks t @ map context_of (filter (in_bucket Success) cs)"
  by (induction cs arbitrary: t) (simp_all add: categorize_classify in_bucket_def split: bucket.splits)

lemma fold_allCompleted:
  "allCompleted (fold categorize cs t) = (allCompleted t \<and> filter (in_bucket Pending) cs = [])"
  by (induction cs arbitrary: t) (simp_all add: categorize_classify in_bucket_def split: bucket.splits)

lemma fold_anyFailures:
  "anyFailures (fold categorize cs t) = (anyFailures t \<or> filter (in_bucket Failure) cs \<noteq> [])"
  by (induction cs arbitrary: t) (simp_all add: categorize_classify in_bucket_def split: bucket.splits)

lemma bucket_lengths:
  "length (filter (in_bucket Pending) cs) + length (filter (in_bucket Success) cs) +
   length (filter (in_bucket Failure) cs) + length (filter (in_bucket Unlisted) cs) = length cs"
proof (induction cs)
  case Nil show ?case by simp
next
  case (Cons c cs)
  then show ?case by (cases "classify (status_of c)") (simp_all add: in_bucket_def)
qed

lemma aggregate_closed:
  "cs \<noteq> [] \<Longrightarrow> aggregate pn cs =
     Inr \<lparr>completed = (filter (in_bucket Pending) cs = []),
          hasFailures = (filter (in_bucket Failure) cs \<noteq> []),
          checks = cs, prNumber = pn,
          summary = \<lparr>total = length cs,
                     pending = map context_of (filter (in_bucket Pending) cs),
                     completedNames = map context_of (filter (in_bucket Success) cs),
                     failed = map context_of (filter (in_bucket Failure) cs)\<rparr>\<rparr>"
  by (simp add: aggregate_def Let_def fold_pendingChecks fold_failedChecks fold_completedChecks
      fold_allCompleted fold_anyFailures initial_tally_def)

lemma aggregate_empty: "aggregate pn [] = Inl EmptyCheckSet"
  by (simp add: aggregate_def)

text \<open>
  C1, as the claim states it, fails: a check whose state is outside the table (here
  \<open>SKIPPED\<close>) is counted in \<open>total\<close> and put in none of the three lists.
\<close>

theorem partition_sum_counterexample:
  "aggregate ''12'' [\<lparr>name = Some ''lint'', state = Some ''SKIPPED'', description = None, link = None\<rparr>]
   = Inr \<lparr>completed = True, hasFailures = False,
          checks = [\<lparr>name = Some ''lint'', state = Some ''SKIPPED'', description = None, link = None\<rparr>],
          prNumber = ''12'',
          summary = \<lparr>total = 1, pending = [], completedNames = [], failed = []\<rparr>\<rparr>
   \<and> length ([] :: string list) + length ([] :: string list) + length ([] :: string list) \<noteq> (1 :: nat)"
  by code_simp

text \<open>
  C1, amended. For a non-empty list of checks the lengths of the three lists and the
  number of checks whose state is outside the table add up to \<open>total\<close>, the length of the
  input; the three lengths alone add up to \<open>total\<close> exactly when every state is in the table.
\<close>

theorem partition_sum_with_unlisted:
  "cs \<noteq> [] \<Longrightarrow>
     \<exists>r. aggregate pn cs = Inr r \<and> total (summary r) = length cs \<and>
         length (pending (summary r)) + length (completedNames (summary r)) +
         length (failed (summary r)) + length (filter (in_bucket Unlisted) cs) = total (summary r) \<and>
         (length (pending (summary r)) + length (completedNames (summary r)) +
          length (failed (summary r)) = total (summary r)
          \<longleftrightarrow> (\<forall>c \<in> set cs. \<not> in_bucket Unlisted c))"
proof -
  assume ne: "cs \<noteq> []"
  let ?p = "length (filter (in_bucket Pending) cs)"
  let ?s = "length (filter (in_bucket Success) cs)"
  let ?f = "length (filter (in_bucket Failure) cs)"
  let ?u = "length (filter (in_bucket Unlisted) cs)"
  have all: "?p + ?s + ?f + ?u = length cs"
    by (rule bucket_lengths)
  then have "(?p + ?s + ?f = length cs) \<longleftrightarrow> ?u = 0"
    by arith
  also have "?u = 0 \<longleftrightarrow> (\<forall>c \<in> set cs. \<not> in_bucket Unlisted c)"
    by (simp add: filter_empty_conv)
  finally have iff: "(?p + ?s + ?f = length cs) \<longleftrightarrow> (\<forall>c \<in> set cs. \<not> in_bucket Unlisted c)" .
  show ?thesis
    unfolding aggregate_closed [OF ne]
    using all iff by simp
qed

theorem partition_sum_with_unlisted_witness:
  "\<exists>r. aggregate ''12''
         [\<lparr>name = Some ''build'', state = Some ''SUCCESS'', description = None, link = None\<rparr>,
          \<lparr>name = Some ''lint'', state = Some ''SKIPPED'', description = None, link = None\<rparr>] = Inr r \<and>
       total (summary r) = 2 \<and>
       length (pending (summary r)) + length (completedNames (summary r)) +
       length (failed (summary r)) + 1 = total (summary r)"
proof -
  let ?cs = "[\<lparr>name = Some ''build'', state = Some ''SUCCESS'', description = None, link = None\<rparr>,
          \<lparr>name = Some ''lint'', state = Some ''SKIPPED'', description = None, link = None\<rparr>]"
  have ne: "?cs \<noteq> []" by simp
  have u: "length (filter (in_bucket Unlisted) ?cs) = 1" by code_simp
  show ?thesis
    using partition_sum_with_unlisted [OF ne, of "''12''"] unfolding u by auto
qed

text \<open>
  C5. For a non-empty list of checks the flag \<open>completed\<close> (allCompleted) holds exactly
  when the list of pending names is empty, and \<open>hasFailures\<close> exactly when the list of
  failed names is not empty.
\<close>

theorem flags_match_lists:
  "cs \<noteq> [] \<Longrightarrow>
     \<exists>r. aggregate pn cs = Inr r \<and>
         (completed r \<longleftrightarrow> pending (summary r) = []) \<and>
         (hasFailures r \<longleftrightarrow> failed (summary r) \<noteq> [])"
  by (simp add: aggregate_closed)

theorem flags_match_lists_witness:
  "aggregate ''12''
     [\<lparr>name = Some ''build'', state = Some ''FAILURE'', description = None, link = None\<rparr>,
      \<lparr>name = Some ''lint'', state = Some ''success'', description = None, link = None\<rparr>] =
   Inr \<lparr>completed = True, hasFailures = True,
        checks = [\<lparr>name = Some ''build'', state = Some ''FAILURE'', description = None, link = None\<rparr>,
                  \<lparr>name = Some ''lint'', state = Some ''success'', description = None, link = None\<rparr>],
        prNumber = ''12'',
        summary = \<lparr>total = 2, pending = [], completedNames = [''lint''], failed = [''build'']\<rparr>\<rparr> \<and>
   (True \<longleftrightarrow> ([] :: string list) = []) \<and> (True \<longleftrightarrow> [''build''] \<noteq> [])"
proof -
  let ?cs = "[\<lparr>name = Some ''build'', state = Some ''FAILURE'', description = None, link = None\<rparr>,
      \<lparr>name = Some ''lint'', state = Some ''success'', description = None, link = None\<rparr>]"
  have ne: "?cs \<noteq> []" by simp
  have e: "aggregate ''12'' ?cs =
   Inr \<lparr>completed = True, hasFailures = True, checks = ?cs, prNumber = ''12'',
        summary = \<lparr>total = 2, pending = [], completedNames = [''lint''], failed = [''build'']\<rparr>\<rparr>"
    by code_simp
  show ?thesis
    using flags_match_lists [OF ne, of "''12''"] e by simp
qed

text \<open>
  C6. On an empty list of checks the result is the error returned at the length test and no
  snapshot; on a non-empty list it is a snapshot. The same holds for the whole of
  \<^verbatim>\<open>checkAllChecksStatus\<close> once the URL matches.
\<close>

theorem empty_check_set:
  "aggregate pn [] = Inl EmptyCheckSet \<and>
   (cs \<noteq> [] \<longrightarrow> (\<exists>r. aggregate pn cs = Inr r)) \<and>
   (u \<noteq> [] \<and> match_pull u \<noteq> None \<longrightarrow>
      checkAllChecksStatus (Some u) (Listing []) = Inl EmptyCheckSet \<and>
      (cs \<noteq> [] \<longrightarrow> (\<exists>r. checkAllChecksStatus (Some u) (Listing cs) = Inr r)))"
  by (auto simp: aggregate_empty aggregate_closed checkAllChecksStatus_def check_url_def)


theorem empty_check_set_witness:
  "aggregate ''12'' [] = Inl EmptyCheckSet \<and>
   (\<exists>r. aggregate ''12''
      [\<lparr>name = Some ''build'', state = Some ''pending'', description = None, link = None\<rparr>] = Inr r) \<and>
   checkAllChecksStatus (Some ''https://github.com/o/r/pull/12'') (Listing []) = Inl EmptyCheckSet \<and>
   (\<exists>r. checkAllChecksStatus (Some ''https://github.com/o/r/pull/12'')
      (Listing [\<lparr>name = Some ''build'', state = Some ''pending'', description = None, link = None\<rparr>])
      = Inr r)"
proof -
  have m: "match_pull ''https://github.com/o/r/pull/12'' \<noteq> None" by code_simp
  show ?thesis
    using m empty_check_set [of "''12''"
        "[\<lparr>name = Some ''build'', state = Some ''pending'', description = None, link = None\<rparr>]"
        "''https://github.com/o/r/pull/12''"]
    by simp
qed

text \<open>
  C9. The snapshot is given by the list of checks and the pull-request number alone: each of
  the three lists holds the names of the checks of its bucket in the order of the input,
  the flags and the total are read off the same list, and applying the function again to
  the checks kept in the snapshot gives the same snapshot. Nothing else (no clock, no
  random source, no state kept between calls) enters the function.
\<close>

theorem aggregate_order_and_determinism:
  "cs \<noteq> [] \<Longrightarrow>
     \<exists>r. aggregate pn cs = Inr r \<and>
         pending (summary r) = map context_of (filter (in_bucket Pending) cs) \<and>
         completedNames (summary r) = map context_of (filter (in_bucket Success) cs) \<and>
         failed (summary r) = map context_of (filter (in_bucket Failure) cs) \<and>
         total (summary r) = length cs \<and>
         completed r = (filter (in_bucket Pending) cs = []) \<and>
         hasFailures r = (filter (in_bucket Failure) cs \<noteq> []) \<and>
         checks r = cs \<and> prNumber r = pn \<and>
         aggregate pn (checks r) = Inr r"
  by (simp add: aggregate_closed)

theorem aggregate_order_and_determinism_witness:
  "\<exists>r. aggregate ''7''
         [\<lparr>name = Some ''a'', state = Some ''PENDING'', description = None, link = None\<rparr>,
          \<lparr>name = Some ''b'', state = Some ''SUCCESS'', description = None, link = None\<rparr>,
          \<lparr>name = Some ''c'', state = Some ''IN_PROGRESS'', description = None, link = None\<rparr>,
          \<lparr>name = None, state = Some ''pending'', description = None, link = None\<rparr>] = Inr r \<and>
       pending (summary r) = [''a'', ''c'', ''Unknown Check''] \<and>
       completedNames (summary r) = [''b''] \<and> failed (summary r) = [] \<and>
       aggregate ''7'' (checks r) = Inr r"
proof -
  let ?cs = "[\<lparr>name = Some ''a'', state = Some ''PENDING'', description = None, link = None\<rparr>,
          \<lparr>name = Some ''b'', state = Some ''SUCCESS'', description = None, link = None\<rparr>,
          \<lparr>name = Some ''c'', state = Some ''IN_PROGRESS'', description = None, link = None\<rparr>,
          \<lparr>name = None, state = Some ''pending'', description = None, link = None\<rparr>]"
  have ne: "?cs \<noteq> []" by simp
  have p: "map context_of (filter (in_bucket Pending) ?cs) = [''a'', ''c'', ''Unknown Check'']"
    by code_simp
  have s: "map context_of (filter (in_bucket Success) ?cs) = [''b'']"
    by code_simp
  have f: "map context_of (filter (in_bucket Failure) ?cs) = []"
    by code_simp
  show ?thesis
    using aggregate_order_and_determinism [OF ne, of "''7''"] unfolding p s f by blast
qed

section \<open>Runs of the monitor loop\<close>

lemma fst_prepend: "fst (prepend es run) = es @ fst run"
  by (cases run) simp

lemma snd_prepend: "snd (prepend es run) = snd run"
  by (cases run) simp

lemma notifications_append: "notifications (xs @ ys) = notifications xs @ notifications ys"
  by (simp add: notifications_def)

lemma schedule_append: "schedule (xs @ ys) = schedule xs @ schedule ys"
  by (simp add: schedule_def)

lemma notifications_Cons:
  "notifications (e # es) = (if is_send e then e # notifications es else notifications es)"
  "notifications [] = []"
  by (simp_all add: notifications_def)

lemma schedule_Cons:
  "schedule (e # es) = (if is_poll_or_wait e then e # schedule es else schedule es)"
  "schedule [] = []"
  by (simp_all add: schedule_def)

lemma notifications_report_progress: "notifications (report_progress r) = []"
  by (simp add: notifications_def report_progress_def)

lemma schedule_report_progress: "schedule (report_progress r) = []"
  by (simp add: schedule_def report_progress_def)

lemma notifications_report_completion:
  "notifications (report_completion st e n r) = [final_notification st e r]"
  by (simp add: notifications_def report_completion_def Let_def final_notification_def)

lemma schedule_report_completion: "schedule (report_completion st e n r) = []"
  by (simp add: schedule_def report_completion_def Let_def)

lemma monitor_loop_error:
  "checkAllChecksStatus prUrl (gh_out (env (Suc n))) = Inl e \<Longrightarrow>
   monitor_loop (Suc fuel) prUrl st env n =
     prepend [Print (CheckHeader (Suc n)), Poll, Print ErrorRetry, Print Waiting, Wait 20000]
       (monitor_loop fuel prUrl st env (Suc n))"
  by (simp add: Let_def)

lemma monitor_loop_progress:
  "checkAllChecksStatus prUrl (gh_out (env (Suc n))) = Inr r \<Longrightarrow> \<not> completed r \<Longrightarrow>
   monitor_loop (Suc fuel) prUrl st env n =
     prepend ([Print (CheckHeader (Suc n)), Poll] @ report_progress r @ [Print Waiting, Wait 20000])
       (monitor_loop fuel prUrl st env (Suc n))"
  by (simp add: Let_def)

lemma monitor_loop_done:
  "checkAllChecksStatus prUrl (gh_out (env (Suc n))) = Inr r \<Longrightarrow> completed r \<Longrightarrow>
   monitor_loop (Suc fuel) prUrl st env n =
     ([Print (CheckHeader (Suc n)), Poll] @ report_completion st (now (env (Suc n))) (Suc n) r,
      Returned)"
  by (simp add: Let_def)

lemma monitor_loop_unfinished:
  assumes "\<not> finished prUrl (env (Suc n))"
  shows "snd (monitor_loop (Suc fuel) prUrl st env n) = snd (monitor_loop fuel prUrl st env (Suc n))"
    and "notifications (fst (monitor_loop (Suc fuel) prUrl st env n)) =
         notifications (fst (monitor_loop fuel prUrl st env (Suc n)))"
    and "schedule (fst (monitor_loop (Suc fuel) prUrl st env n)) =
         Poll # Wait 20000 # schedule (fst (monitor_loop fuel prUrl st env (Suc n)))"
proof -
  show "snd (monitor_loop (Suc fuel) prUrl st env n) = snd (monitor_loop fuel prUrl st env (Suc n))"
  proof (cases "checkAllChecksStatus prUrl (gh_out (env (Suc n)))")
    case (Inl e)
    then show ?thesis
      by (simp add: monitor_loop_error snd_prepend del: monitor_loop.simps)
  next
    case (Inr r)
    with assms have "\<not> completed r" by (simp add: finished_def)
    with Inr show ?thesis
      by (simp add: monitor_loop_progress snd_prepend del: monitor_loop.simps)
  qed
  show "notifications (fst (monitor_loop (Suc fuel) prUrl st env n)) =
         notifications (fst (monitor_loop fuel prUrl st env (Suc n)))"
  proof (cases "checkAllChecksStatus prUrl (gh_out (env (Suc n)))")
    case (Inl e)
    then show ?thesis
      by (simp add: monitor_loop_error fst_prepend notifications_def del: monitor_loop.simps)
  next
    case (Inr r)
    with assms have "\<not> completed r" by (simp add: finished_def)
    with Inr show ?thesis
      using notifications_report_progress [of r]
      by (simp add: monitor_loop_progress fst_prepend notifications_def del: monitor_loop.simps)
  qed
  show "schedule (fst (monitor_loop (Suc fuel) prUrl st env n)) =
         Poll # Wait 20000 # schedule (fst (monitor_loop fuel prUrl st env (Suc n)))"
  proof (cases "checkAllChecksStatus prUrl (gh_out (env (Suc n)))")
    case (Inl e)
    then show ?thesis
      by (simp add: monitor_loop_error fst_prepend schedule_def del: monitor_loop.simps)
  next
    case (Inr r)
    with assms have "\<not> completed r" by (simp add: finished_def)
    with Inr show ?thesis
      using schedule_report_progress [of r]
      by (simp add: monitor_loop_progress fst_prepend schedule_def del: monitor_loop.simps)
  qed
qed

lemma monitor_loop_reaches:
  "\<lbrakk>\<forall>i. n < i \<and> i < n + k \<longrightarrow> \<not> finished prUrl (env i);
    checkAllChecksStatus prUrl (gh_out (env (n + k))) = Inr r; completed r; 0 < k; k \<le> fuel\<rbrakk>
   \<Longrightarrow> snd (monitor_loop fuel prUrl st env n) = Returned \<and>
       notifications (fst (monitor_loop fuel prUrl st env n)) =
         [final_notification st (now (env (n + k))) r] \<and>
       schedule (fst (monitor_loop fuel prUrl st env n)) = poll_schedule k"
proof (induction k arbitrary: n fuel)
  case 0
  then show ?case by simp
next
  case (Suc k)
  from Suc.prems(5) obtain f where fuel: "fuel = Suc f" and kf: "k \<le> f"
    by (cases fuel) auto
  show ?case
  proof (cases k)
    case 0
    with Suc.prems(2) have c: "checkAllChecksStatus prUrl (gh_out (env (Suc n))) = Inr r"
      by simp
    show ?thesis
      unfolding fuel
      using 0 c Suc.prems(3) by (simp del: monitor_loop.simps add: monitor_loop_done notifications_append schedule_append notifications_report_completion
          schedule_report_completion notifications_Cons schedule_Cons)
  next
    case (Suc k')
    have nf: "\<not> finished prUrl (env (Suc n))"
      using Suc.prems(1) Suc by simp
    have a: "\<forall>i. Suc n < i \<and> i < Suc n + k \<longrightarrow> \<not> finished prUrl (env i)"
      using Suc.prems(1) by simp
    have b: "checkAllChecksStatus prUrl (gh_out (env (Suc n + k))) = Inr r"
      using Suc.prems(2) by simp
    have pos: "0 < k" using Suc by simp
    note ih = Suc.IH [OF a b Suc.prems(3) pos kf]
    show ?thesis
      unfolding fuel
      using ih Suc
      by (simp add: monitor_loop_unfinished [where env=env and n=n and prUrl=prUrl, OF nf] del: monitor_loop.simps)
  qed
qed

lemma startContinuousNotifications_run:
  "snd (startContinuousNotifications fuel r d ty c) = Running \<and>
   map notification_type (notifications (fst (startContinuousNotifications fuel r d ty c))) =
     replicate fuel ''repeat'' \<and>
   schedule (fst (startContinuousNotifications fuel r d ty c)) = replicate fuel (Wait 20000)"
proof (induction fuel arbitrary: c)
  case 0
  show ?case by (simp add: notifications_Cons schedule_Cons)
next
  case (Suc fuel)
  show ?case
    using Suc [of "c + 1"]
    by (simp add: Let_def fst_prepend snd_prepend notifications_Cons schedule_Cons)
qed

lemma monitor_loop_repeat_progress:
  "progressing prUrl (env (Suc n)) \<Longrightarrow>
   snd (monitor_loop_repeat (Suc fuel) prUrl st env n) =
     snd (monitor_loop_repeat fuel prUrl st env (Suc n)) \<and>
   notifications (fst (monitor_loop_repeat (Suc fuel) prUrl st env n)) =
     notifications (fst (monitor_loop_repeat fuel prUrl st env (Suc n))) \<and>
   schedule (fst (monitor_loop_repeat (Suc fuel) prUrl st env n)) =
     Poll # Wait 20000 # schedule (fst (monitor_loop_repeat fuel prUrl st env (Suc n)))"
  by (auto simp: progressing_def Let_def fst_prepend snd_prepend notifications_append
      schedule_append notifications_Cons schedule_Cons notifications_report_progress
      schedule_report_progress split: call.splits sum.splits)

lemma monitor_loop_repeat_done:
  "checkAllChecksStatus_discover prUrl (picked (env (Suc n))) (gh_out (env (Suc n))) = Return (Inr r)
   \<Longrightarrow> completed r \<Longrightarrow>
   monitor_loop_repeat (Suc fuel) prUrl st env n =
     prepend ([Print (CheckHeader (Suc n)), Poll] @
              report_completion st (now (env (Suc n))) (Suc n) r @
              [Print NowRepeating, Print PressCtrlC])
       (startContinuousNotifications fuel r (formatDuration st (now (env (Suc n))))
          (if hasFailures r then ''failure'' else ''success'') 0)"
  by (simp add: Let_def)

lemma monitor_loop_repeat_reaches:
  "\<lbrakk>\<forall>i. n < i \<and> i < n + k \<longrightarrow> progressing prUrl (env i);
    checkAllChecksStatus_discover prUrl (picked (env (n + k))) (gh_out (env (n + k))) = Return (Inr r);
    completed r; 0 < k\<rbrakk>
   \<Longrightarrow> snd (monitor_loop_repeat (k + m) prUrl st env n) = Running \<and>
       notifications (fst (monitor_loop_repeat (k + m) prUrl st env n)) =
         final_notification st (now (env (n + k))) r #
         notifications (fst (startContinuousNotifications m r
            (formatDuration st (now (env (n + k))))
            (if hasFailures r then ''failure'' else ''success'') 0)) \<and>
       schedule (fst (monitor_loop_repeat (k + m) prUrl st env n)) =
         poll_schedule k @ replicate m (Wait 20000)"
proof (induction k arbitrary: n)
  case 0
  then show ?case by simp
next
  case (Suc k)
  show ?case
  proof (cases k)
    case 0
    with Suc.prems(2)
    have c: "checkAllChecksStatus_discover prUrl (picked (env (Suc n))) (gh_out (env (Suc n))) =
             Return (Inr r)"
      by simp
    show ?thesis
      using 0 c Suc.prems(3) startContinuousNotifications_run
      by (simp del: monitor_loop_repeat.simps add: monitor_loop_repeat_done fst_prepend snd_prepend
          notifications_append schedule_append notifications_report_completion
          schedule_report_completion notifications_Cons schedule_Cons)
  next
    case (Suc k')
    have nf: "progressing prUrl (env (Suc n))"
      using Suc.prems(1) Suc by simp
    have a: "\<forall>i. Suc n < i \<and> i < Suc n + k \<longrightarrow> progressing prUrl (env i)"
      using Suc.prems(1) by simp
    have b: "checkAllChecksStatus_discover prUrl (picked (env (Suc n + k))) (gh_out (env (Suc n + k)))
             = Return (Inr r)"
      using Suc.prems(2) by simp
    have pos: "0 < k" using Suc by simp
    note ih = Suc.IH [OF a b Suc.prems(3) pos]
    show ?thesis
      using ih Suc
      by (simp add: monitor_loop_repeat_progress [where env=env and n=n and prUrl=prUrl, OF nf]
          del: monitor_loop_repeat.simps)
  qed
qed

lemma monitor_loop_discover_error:
  "checkAllChecksStatus_discover prUrl (picked (env (Suc n))) (gh_out (env (Suc n))) = Return (Inl e)
   \<Longrightarrow> monitor_loop_discover (Suc fuel) prUrl st env n =
     prepend [Print (CheckHeader (Suc n)), Poll, Print ErrorRetry, Print Waiting, Wait 20000]
       (monitor_loop_discover fuel prUrl st env (Suc n))"
  by (simp add: Let_def)

lemma monitor_loop_repeat_error:
  "checkAllChecksStatus_discover prUrl (picked (env (Suc n))) (gh_out (env (Suc n))) = Return (Inl e)
   \<Longrightarrow> monitor_loop_repeat (Suc fuel) prUrl st env n =
     ([Print (CheckHeader (Suc n)), Poll, Print ErrorExit], Exited 1)"
  by (simp add: Let_def)

lemma fetch_fails_error:
  "u \<noteq> [] \<Longrightarrow> match_pull u \<noteq> None \<Longrightarrow> fetch_fails inp \<Longrightarrow>
   checkAllChecksStatus (Some u) (gh_out inp) =
     Inl (if gh_out inp = CommandFailed then FetchError else EmptyCheckSet) \<and>
   checkAllChecksStatus_discover (Some u) (picked inp) (gh_out inp) =
     Return (Inl (if gh_out inp = CommandFailed then FetchError else EmptyCheckSet))"
  by (auto simp: fetch_fails_def checkAllChecksStatus_def checkAllChecksStatus_discover_def
      check_url_def aggregate_def)

lemma fetch_fails_discover:
  "u \<noteq> [] \<Longrightarrow> match_pull u \<noteq> None \<Longrightarrow> fetch_fails inp \<Longrightarrow>
   prUrl = Some u \<or> (prUrl = None \<or> prUrl = Some []) \<and> picked inp = Chosen u \<Longrightarrow>
   checkAllChecksStatus_discover prUrl (picked inp) (gh_out inp) =
     Return (Inl (if gh_out inp = CommandFailed then FetchError else EmptyCheckSet))"
  by (auto simp: fetch_fails_def checkAllChecksStatus_discover_def select_url_def
      check_url_def aggregate_def)

lemma monitor_loop_always_failing:
  "\<forall>i. \<exists>e. checkAllChecksStatus prUrl (gh_out (env i)) = Inl e \<Longrightarrow>
   snd (monitor_loop fuel prUrl st env n) = Running \<and>
   schedule (fst (monitor_loop fuel prUrl st env n)) = concat (replicate fuel [Poll, Wait 20000])"
proof (induction fuel arbitrary: n)
  case 0
  show ?case by (simp add: schedule_Cons)
next
  case (Suc fuel)
  from Suc.prems obtain e where e: "checkAllChecksStatus prUrl (gh_out (env (Suc n))) = Inl e"
    by blast
  show ?case
    using Suc.IH [OF Suc.prems, of "Suc n"] e
    by (simp add: monitor_loop_error fst_prepend snd_prepend schedule_Cons
        del: monitor_loop.simps)
qed

section \<open>Completion and notification\<close>

lemma monitorAllChecksStatus_repeat_first:
  assumes "checkAllChecksStatus_discover prUrl (picked (env 1)) (gh_out (env 1)) = Return (Inr r)"
    and "completed r"
  shows "snd (monitorAllChecksStatus_repeat (Suc m) prUrl st env) = Running"
    and "map notification_type
           (notifications (fst (monitorAllChecksStatus_repeat (Suc m) prUrl st env))) =
         (if hasFailures r then ''failure'' else ''success'') # replicate m ''repeat''"
proof -
  have c: "checkAllChecksStatus_discover prUrl (picked (env (0 + 1))) (gh_out (env (0 + 1))) =
           Return (Inr r)"
    using assms(1) by simp
  have "\<forall>i. (0::nat) < i \<and> i < 0 + 1 \<longrightarrow> progressing prUrl (env i)"
    by simp
  from monitor_loop_repeat_reaches [where n=0 and k=1 and m=m and st=st, OF this c assms(2)]
  have r: "snd (monitor_loop_repeat (Suc m) prUrl st env 0) = Running"
    "notifications (fst (monitor_loop_repeat (Suc m) prUrl st env 0)) =
       final_notification st (now (env 1)) r #
       notifications (fst (startContinuousNotifications m r (formatDuration st (now (env 1)))
          (if hasFailures r then ''failure'' else ''success'') 0))"
    by simp_all
  show "snd (monitorAllChecksStatus_repeat (Suc m) prUrl st env) = Running"
    using r(1) by (simp add: monitorAllChecksStatus_repeat_def snd_prepend)
  have "notifications (fst (monitorAllChecksStatus_repeat (Suc m) prUrl st env)) =
        notifications (fst (monitor_loop_repeat (Suc m) prUrl st env 0))"
    by (simp add: monitorAllChecksStatus_repeat_def fst_prepend notifications_Cons
        del: monitor_loop_repeat.simps)
  then show "map notification_type
           (notifications (fst (monitorAllChecksStatus_repeat (Suc m) prUrl st env))) =
         (if hasFailures r then ''failure'' else ''success'') # replicate m ''repeat''"
    using r(2) startContinuousNotifications_run
    by (simp add: final_notification_def del: monitor_loop_repeat.simps)
qed

text \<open>
  C3, as the claim states it, fails in \<^verbatim>\<open>github-pr-monitor.js\<close>: after the first poll
  has given a completed snapshot, a run of three units of fuel has called the notification
  collaborator three times, the last two calls with the type \<open>repeat\<close>.
\<close>

theorem repeat_notifications_counterexample:
  "checkAllChecksStatus_discover (Some sample_url) Declined
     (Listing [sample_check ''build'' (Some ''SUCCESS'')]) =
   Return (Inr \<lparr>completed = True, hasFailures = False,
                checks = [sample_check ''build'' (Some ''SUCCESS'')], prNumber = ''12'',
                summary = \<lparr>total = 1, pending = [], completedNames = [''build''], failed = []\<rparr>\<rparr>) \<and>
   map notification_type
     (notifications (fst (monitorAllChecksStatus_repeat 3 (Some sample_url) 0 done_polls))) =
   [''success'', ''repeat'', ''repeat''] \<and>
   length (notifications (fst (monitorAllChecksStatus_repeat 3 (Some sample_url) 0 done_polls)))
     \<noteq> 1"
proof -
  let ?r = "\<lparr>completed = True, hasFailures = False,
                checks = [sample_check ''build'' (Some ''SUCCESS'')], prNumber = ''12'',
                summary = \<lparr>total = 1, pending = [], completedNames = [''build''], failed = []\<rparr>\<rparr>"
  let ?env = "done_polls"
  have c: "checkAllChecksStatus_discover (Some sample_url) Declined
     (Listing [sample_check ''build'' (Some ''SUCCESS'')]) = Return (Inr ?r)"
    by code_simp
  have c': "checkAllChecksStatus_discover (Some sample_url) (picked (?env 1)) (gh_out (?env 1)) =
            Return (Inr ?r)"
    using c by (simp add: done_polls_def sample_input_def)
  have d: "completed ?r" by simp
  have three: "(3::nat) = Suc 2" by simp
  have m: "map notification_type
     (notifications (fst (monitorAllChecksStatus_repeat 3 (Some sample_url) 0 ?env))) =
     [''success'', ''repeat'', ''repeat'']"
    unfolding three
    using monitorAllChecksStatus_repeat_first(2) [where env="?env" and r="?r" and m=2
        and prUrl="Some sample_url" and st=0, OF c' d]
    by (simp add: numeral_2_eq_2)
  have "length (map notification_type
     (notifications (fst (monitorAllChecksStatus_repeat 3 (Some sample_url) 0 ?env)))) = 3"
    unfolding m by simp
  then have l: "length (notifications (fst (monitorAllChecksStatus_repeat 3 (Some sample_url) 0 ?env)))
    \<noteq> 1"
    by simp
  show ?thesis using c m l by blast
qed


text \<open>
  C3, amended. Let the \<open>k\<close>-th poll be the first that gives a snapshot with
  \<open>completed\<close> (allCompleted) true. In \<^verbatim>\<open>index.js\<close> the loop then returns, every run
  of at least \<open>k\<close> iterations has called \<^verbatim>\<open>sendNotification\<close> exactly once, with the
  type \<open>failure\<close> if \<open>hasFailures\<close> and \<open>success\<close> otherwise and a message made of the
  outcome, the pull-request number and the elapsed duration, after exactly \<open>k\<close> polls with
  one wait of 20000 ms between each two. In \<^verbatim>\<open>github-pr-monitor.js\<close> (where the polls
  before the \<open>k\<close>-th give snapshots that are not completed) the loop makes the same first
  call after the same polls and waits, and then does not return: each further iteration
  sends one more notification of type \<open>repeat\<close> and waits 20000 ms.
\<close>

theorem completion_notifies:
  "(0 < k \<and> k \<le> fuel \<and> (\<forall>i. 0 < i \<and> i < k \<longrightarrow> \<not> finished prUrl (env i)) \<and>
    checkAllChecksStatus prUrl (gh_out (env k)) = Inr r \<and> completed r
    \<longrightarrow> snd (monitorAllChecksStatus fuel prUrl st env) = Returned \<and>
        notifications (fst (monitorAllChecksStatus fuel prUrl st env)) =
          [SendNotification
             ((if hasFailures r then ''All checks completed with failures for PR #''
               else ''All checks completed successfully for PR #'') @ prNumber r @
              [CHR 0x0A] @ ''Completed in '' @ formatDuration st (now (env k)))
             (if hasFailures r then ''failure'' else ''success'')] \<and>
        schedule (fst (monitorAllChecksStatus fuel prUrl st env)) = poll_schedule k) \<and>
   (0 < k \<and> (\<forall>i. 0 < i \<and> i < k \<longrightarrow> progressing prUrl (env i)) \<and>
    checkAllChecksStatus_discover prUrl (picked (env k)) (gh_out (env k)) = Return (Inr r) \<and>
    completed r
    \<longrightarrow> snd (monitorAllChecksStatus_repeat (k + m) prUrl st env) = Running \<and>
        (\<exists>rest.
           notifications (fst (monitorAllChecksStatus_repeat (k + m) prUrl st env)) =
             SendNotification
               ((if hasFailures r then ''All checks completed with failures for PR #''
                 else ''All checks completed successfully for PR #'') @ prNumber r @
                [CHR 0x0A] @ ''Completed in '' @ formatDuration st (now (env k)))
               (if hasFailures r then ''failure'' else ''success'') # rest \<and>
           map notification_type rest = replicate m ''repeat'') \<and>
        map notification_type
          (notifications (fst (monitorAllChecksStatus_repeat (k + m) prUrl st env))) =
          (if hasFailures r then ''failure'' else ''success'') # replicate m ''repeat'' \<and>
        schedule (fst (monitorAllChecksStatus_repeat (k + m) prUrl st env)) =
          poll_schedule k @ replicate m (Wait 20000))"
proof -
  have fin: "final_notification st (now (env k)) r =
          SendNotification
             ((if hasFailures r then ''All checks completed with failures for PR #''
               else ''All checks completed successfully for PR #'') @ prNumber r @
              [CHR 0x0A] @ ''Completed in '' @ formatDuration st (now (env k)))
             (if hasFailures r then ''failure'' else ''success'')"
    by (simp add: final_notification_def completed_in_def failure_message_def success_message_def)
  have A: "snd (monitorAllChecksStatus fuel prUrl st env) = Returned \<and>
        notifications (fst (monitorAllChecksStatus fuel prUrl st env)) =
          [final_notification st (now (env k)) r] \<and>
        schedule (fst (monitorAllChecksStatus fuel prUrl st env)) = poll_schedule k"
    if "0 < k" "k \<le> fuel" "\<forall>i. 0 < i \<and> i < k \<longrightarrow> \<not> finished prUrl (env i)"
      "checkAllChecksStatus prUrl (gh_out (env k)) = Inr r" "completed r"
    using monitor_loop_reaches [where n=0 and k=k and env=env and prUrl=prUrl and r=r
        and fuel=fuel and st=st] that
    by (simp add: monitorAllChecksStatus_def fst_prepend snd_prepend notifications_Cons
        schedule_Cons)
  have B: "snd (monitorAllChecksStatus_repeat (k + m) prUrl st env) = Running \<and>
        notifications (fst (monitorAllChecksStatus_repeat (k + m) prUrl st env)) =
          final_notification st (now (env k)) r #
          notifications (fst (startContinuousNotifications m r (formatDuration st (now (env k)))
            (if hasFailures r then ''failure'' else ''success'') 0)) \<and>
        schedule (fst (monitorAllChecksStatus_repeat (k + m) prUrl st env)) =
          poll_schedule k @ replicate m (Wait 20000)"
    if "0 < k" "\<forall>i. 0 < i \<and> i < k \<longrightarrow> progressing prUrl (env i)"
      "checkAllChecksStatus_discover prUrl (picked (env k)) (gh_out (env k)) = Return (Inr r)"
      "completed r"
    using monitor_loop_repeat_reaches [where n=0 and k=k and env=env and prUrl=prUrl and r=r
        and m=m and st=st] that
    by (simp add: monitorAllChecksStatus_repeat_def fst_prepend snd_prepend notifications_Cons
        schedule_Cons)
  have ty: "notification_type (final_notification st (now (env k)) r) =
            (if hasFailures r then ''failure'' else ''success'')"
    by (simp add: final_notification_def)
  show ?thesis
  proof (intro conjI impI)
    assume h: "0 < k \<and> k \<le> fuel \<and> (\<forall>i. 0 < i \<and> i < k \<longrightarrow> \<not> finished prUrl (env i)) \<and>
      checkAllChecksStatus prUrl (gh_out (env k)) = Inr r \<and> completed r"
    then have a: "snd (monitorAllChecksStatus fuel prUrl st env) = Returned \<and>
        notifications (fst (monitorAllChecksStatus fuel prUrl st env)) =
          [final_notification st (now (env k)) r] \<and>
        schedule (fst (monitorAllChecksStatus fuel prUrl st env)) = poll_schedule k"
      using A by blast
    from a show "snd (monitorAllChecksStatus fuel prUrl st env) = Returned" by blast
    from a fin show "notifications (fst (monitorAllChecksStatus fuel prUrl st env)) =
          [SendNotification
             ((if hasFailures r then ''All checks completed with failures for PR #''
               else ''All checks completed successfully for PR #'') @ prNumber r @
              [CHR 0x0A] @ ''Completed in '' @ formatDuration st (now (env k)))
             (if hasFailures r then ''failure'' else ''success'')]"
      by (simp only:)
    from a show "schedule (fst (monitorAllChecksStatus fuel prUrl st env)) = poll_schedule k"
      by blast
  next
    assume h: "0 < k \<and> (\<forall>i. 0 < i \<and> i < k \<longrightarrow> progressing prUrl (env i)) \<and>
      checkAllChecksStatus_discover prUrl (picked (env k)) (gh_out (env k)) = Return (Inr r) \<and>
      completed r"
    then have b: "snd (monitorAllChecksStatus_repeat (k + m) prUrl st env) = Running \<and>
        notifications (fst (monitorAllChecksStatus_repeat (k + m) prUrl st env)) =
          final_notification st (now (env k)) r #
          notifications (fst (startContinuousNotifications m r (formatDuration st (now (env k)))
            (if hasFailures r then ''failure'' else ''success'') 0)) \<and>
        schedule (fst (monitorAllChecksStatus_repeat (k + m) prUrl st env)) =
          poll_schedule k @ replicate m (Wait 20000)"
      using B by blast
    from b show "snd (monitorAllChecksStatus_repeat (k + m) prUrl st env) = Running" by blast
    from b fin
    have "notifications (fst (monitorAllChecksStatus_repeat (k + m) prUrl st env)) =
          SendNotification
             ((if hasFailures r then ''All checks completed with failures for PR #''
               else ''All checks completed successfully for PR #'') @ prNumber r @
              [CHR 0x0A] @ ''Completed in '' @ formatDuration st (now (env k)))
             (if hasFailures r then ''failure'' else ''success'') #
          notifications (fst (startContinuousNotifications m r (formatDuration st (now (env k)))
            (if hasFailures r then ''failure'' else ''success'') 0))"
      by (simp only:)
    with startContinuousNotifications_run
    show "\<exists>rest.
           notifications (fst (monitorAllChecksStatus_repeat (k + m) prUrl st env)) =
             SendNotification
               ((if hasFailures r then ''All checks completed with failures for PR #''
                 else ''All checks completed successfully for PR #'') @ prNumber r @
                [CHR 0x0A] @ ''Completed in '' @ formatDuration st (now (env k)))
               (if hasFailures r then ''failure'' else ''success'') # rest \<and>
           map notification_type rest = replicate m ''repeat''"
      by blast
    from b ty startContinuousNotifications_run
    show "map notification_type
          (notifications (fst (monitorAllChecksStatus_repeat (k + m) prUrl st env))) =
          (if hasFailures r then ''failure'' else ''success'') # replicate m ''repeat''"
      by (simp only: list.map)
    from b show "schedule (fst (monitorAllChecksStatus_repeat (k + m) prUrl st env)) =
          poll_schedule k @ replicate m (Wait 20000)"
      by blast
  qed
qed

lemma poll_schedule_3: "poll_schedule 3 = [Poll, Wait 20000, Poll, Wait 20000, Poll]"
  by code_simp

theorem completion_notifies_witness:
  "snd (monitorAllChecksStatus 5 (Some sample_url) 0 three_polls) = Returned \<and>
   notifications (fst (monitorAllChecksStatus 5 (Some sample_url) 0 three_polls)) =
     [SendNotification
        (''All checks completed successfully for PR #12'' @ [CHR 0x0A] @ ''Completed in 1m 1s'')
        ''success''] \<and>
   schedule (fst (monitorAllChecksStatus 5 (Some sample_url) 0 three_polls)) =
     [Poll, Wait 20000, Poll, Wait 20000, Poll] \<and>
   snd (monitorAllChecksStatus_repeat (3 + 2) (Some sample_url) 0 three_polls) = Running \<and>
   map notification_type
     (notifications (fst (monitorAllChecksStatus_repeat (3 + 2) (Some sample_url) 0 three_polls))) =
     [''success'', ''repeat'', ''repeat'']"
proof -
  let ?p = "Listing [sample_check ''build'' (Some ''PENDING'')]"
  let ?s = "Listing [sample_check ''build'' (Some ''SUCCESS'')]"
  let ?r = "\<lparr>completed = True, hasFailures = False,
             checks = [sample_check ''build'' (Some ''SUCCESS'')], prNumber = ''12'',
             summary = \<lparr>total = 1, pending = [], completedNames = [''build''], failed = []\<rparr>\<rparr>"
  have p: "checkAllChecksStatus (Some sample_url) ?p =
           Inr \<lparr>completed = False, hasFailures = False,
             checks = [sample_check ''build'' (Some ''PENDING'')], prNumber = ''12'',
             summary = \<lparr>total = 1, pending = [''build''], completedNames = [], failed = []\<rparr>\<rparr>"
    by code_simp
  have s: "checkAllChecksStatus (Some sample_url) ?s = Inr ?r"
    by code_simp
  have u: "sample_url \<noteq> []" by code_simp
  have pd: "checkAllChecksStatus_discover (Some sample_url) Declined ?p = Return (checkAllChecksStatus (Some sample_url) ?p)"
    and sd: "checkAllChecksStatus_discover (Some sample_url) Declined ?s = Return (checkAllChecksStatus (Some sample_url) ?s)"
    using u by (simp_all add: checkAllChecksStatus_discover_def checkAllChecksStatus_def)
  have before: "\<forall>i. 0 < i \<and> i < 3 \<longrightarrow> \<not> finished (Some sample_url) (three_polls i)"
    by (simp add: finished_def three_polls_def sample_input_def p)
  have before': "\<forall>i. 0 < i \<and> i < 3 \<longrightarrow> progressing (Some sample_url) (three_polls i)"
    by (simp add: progressing_def three_polls_def sample_input_def pd p)
  have at: "checkAllChecksStatus (Some sample_url) (gh_out (three_polls 3)) = Inr ?r"
    by (simp add: three_polls_def sample_input_def s)
  have at': "checkAllChecksStatus_discover (Some sample_url) (picked (three_polls 3))
               (gh_out (three_polls 3)) = Return (Inr ?r)"
    by (simp add: three_polls_def sample_input_def sd s)
  have d: "formatDuration 0 (now (three_polls 3)) = ''1m 1s''"
    by code_simp
  have h1: "(0::nat) < 3 \<and> (3::nat) \<le> 5 \<and>
      (\<forall>i. 0 < i \<and> i < 3 \<longrightarrow> \<not> finished (Some sample_url) (three_polls i)) \<and>
      checkAllChecksStatus (Some sample_url) (gh_out (three_polls 3)) = Inr ?r \<and> completed ?r"
    using before at by simp
  have h2: "(0::nat) < 3 \<and>
      (\<forall>i. 0 < i \<and> i < 3 \<longrightarrow> progressing (Some sample_url) (three_polls i)) \<and>
      checkAllChecksStatus_discover (Some sample_url) (picked (three_polls 3))
        (gh_out (three_polls 3)) = Return (Inr ?r) \<and> completed ?r"
    using before' at' by simp
  note t = completion_notifies [where k=3 and fuel=5 and prUrl="Some sample_url"
      and env=three_polls and r="?r" and st=0 and m=2]
  from t h1 have a: "snd (monitorAllChecksStatus 5 (Some sample_url) 0 three_polls) = Returned \<and>
        notifications (fst (monitorAllChecksStatus 5 (Some sample_url) 0 three_polls)) =
          [SendNotification
             ((if hasFailures ?r then ''All checks completed with failures for PR #''
               else ''All checks completed successfully for PR #'') @ prNumber ?r @
              [CHR 0x0A] @ ''Completed in '' @ formatDuration 0 (now (three_polls 3)))
             (if hasFailures ?r then ''failure'' else ''success'')] \<and>
        schedule (fst (monitorAllChecksStatus 5 (Some sample_url) 0 three_polls)) = poll_schedule 3"
    by blast
  from t h2 have b: "snd (monitorAllChecksStatus_repeat (3 + 2) (Some sample_url) 0 three_polls) = Running \<and>
        map notification_type
          (notifications (fst (monitorAllChecksStatus_repeat (3 + 2) (Some sample_url) 0 three_polls))) =
          (if hasFailures ?r then ''failure'' else ''success'') # replicate 2 ''repeat''"
    by blast
  have r2: "replicate 2 ''repeat'' = [''repeat'', ''repeat'']"
    by (simp add: numeral_2_eq_2)
  show ?thesis
    using a b unfolding d poll_schedule_3 r2 by simp
qed

section \<open>Polls that fail\<close>

lemma monitor_loop_discover_always_failing:
  "\<forall>i. \<exists>e. checkAllChecksStatus_discover prUrl (picked (env i)) (gh_out (env i)) = Return (Inl e) \<Longrightarrow>
   snd (monitor_loop_discover fuel prUrl st env n) = Running \<and>
   schedule (fst (monitor_loop_discover fuel prUrl st env n)) =
     concat (replicate fuel [Poll, Wait 20000])"
proof (induction fuel arbitrary: n)
  case 0
  show ?case by (simp add: schedule_Cons)
next
  case (Suc fuel)
  from Suc.prems obtain e
    where e: "checkAllChecksStatus_discover prUrl (picked (env (Suc n))) (gh_out (env (Suc n))) =
              Return (Inl e)"
    by blast
  show ?case
    using Suc.IH [OF Suc.prems, of "Suc n"] e
    by (simp add: monitor_loop_discover_error fst_prepend snd_prepend schedule_Cons
        del: monitor_loop_discover.simps)
qed


text \<open>
  C2, as the claim states it, fails in \<^verbatim>\<open>github-pr-monitor.js\<close>: when the first poll
  ends in a fetch error the loop prints the error and calls \<^verbatim>\<open>process.exit(1)\<close>; there
  is no wait and no second poll.
\<close>

theorem exit_on_error_counterexample:
  "fetch_fails (failing_polls 1) \<and>
   monitor_loop_repeat 2 (Some sample_url) 0 failing_polls 0 =
     ([Print (CheckHeader 1), Poll, Print ErrorExit], Exited 1) \<and>
   exit_code (snd (monitor_loop_repeat 2 (Some sample_url) 0 failing_polls 0)) = Some 1 \<and>
   schedule (fst (monitor_loop_repeat 2 (Some sample_url) 0 failing_polls 0)) = [Poll]"
proof -
  have f: "fetch_fails (failing_polls (Suc 0))"
    by (simp add: fetch_fails_def failing_polls_def sample_input_def)
  have u: "sample_url \<noteq> []" "match_pull sample_url \<noteq> None"
    by code_simp+
  have g: "gh_out (failing_polls (Suc 0)) = CommandFailed"
    by (simp add: failing_polls_def sample_input_def)
  have c: "checkAllChecksStatus_discover (Some sample_url) (picked (failing_polls (Suc 0)))
             (gh_out (failing_polls (Suc 0))) = Return (Inl FetchError)"
    using fetch_fails_error [OF u f] g by simp
  have two: "(2::nat) = Suc 1" by simp
  have r: "monitor_loop_repeat 2 (Some sample_url) 0 failing_polls 0 =
     ([Print (CheckHeader 1), Poll, Print ErrorExit], Exited 1)"
    unfolding two
    using monitor_loop_repeat_error [where env=failing_polls and n=0 and prUrl="Some sample_url"
        and fuel=1 and st=0, OF c]
    by simp
  show ?thesis
    unfolding r using f by (simp add: schedule_Cons)
qed

text \<open>
  C2, amended. In the loops of \<^verbatim>\<open>index.js\<close> and of the discovery variant a poll that
  ends in an error (any error object, so also a fetch error or an empty check set) makes
  the loop print the error line, wait 20000 ms and go on with the next poll. With a URL
  that matches, given on the command line or, in the discovery variant, chosen at that
  poll, a poll in which the command fails or lists no check is such a poll; when every
  poll fails so, these loops are still running after any number of iterations, with one
  wait after each poll. The loop of \<^verbatim>\<open>github-pr-monitor.js\<close> prints the error and ends
  the process with exit code 1, whichever way the URL was found.
\<close>

theorem poll_error_retries_or_exits:
  "(checkAllChecksStatus prUrl (gh_out (env (Suc n))) = Inl e \<longrightarrow>
      monitor_loop (Suc fuel) prUrl st env n =
        prepend [Print (CheckHeader (Suc n)), Poll, Print ErrorRetry, Print Waiting, Wait 20000]
          (monitor_loop fuel prUrl st env (Suc n))) \<and>
   (checkAllChecksStatus_discover prUrl (picked (env (Suc n))) (gh_out (env (Suc n))) =
      Return (Inl e) \<longrightarrow>
      monitor_loop_discover (Suc fuel) prUrl st env n =
        prepend [Print (CheckHeader (Suc n)), Poll, Print ErrorRetry, Print Waiting, Wait 20000]
          (monitor_loop_discover fuel prUrl st env (Suc n)) \<and>
      monitor_loop_repeat (Suc fuel) prUrl st env n =
        ([Print (CheckHeader (Suc n)), Poll, Print ErrorExit], Exited 1)) \<and>
   (u \<noteq> [] \<and> match_pull u \<noteq> None \<longrightarrow>
      (prUrl = Some u \<and> fetch_fails (env (Suc n)) \<longrightarrow>
         monitor_loop (Suc fuel) prUrl st env n =
           prepend [Print (CheckHeader (Suc n)), Poll, Print ErrorRetry, Print Waiting, Wait 20000]
             (monitor_loop fuel prUrl st env (Suc n))) \<and>
      ((prUrl = Some u \<or> (prUrl = None \<or> prUrl = Some []) \<and> picked (env (Suc n)) = Chosen u) \<and>
       fetch_fails (env (Suc n)) \<longrightarrow>
         monitor_loop_discover (Suc fuel) prUrl st env n =
           prepend [Print (CheckHeader (Suc n)), Poll, Print ErrorRetry, Print Waiting, Wait 20000]
             (monitor_loop_discover fuel prUrl st env (Suc n)) \<and>
         monitor_loop_repeat (Suc fuel) prUrl st env n =
           ([Print (CheckHeader (Suc n)), Poll, Print ErrorExit], Exited 1)) \<and>
      (prUrl = Some u \<and> (\<forall>i. fetch_fails (env i)) \<longrightarrow>
         snd (monitorAllChecksStatus fuel prUrl st env) = Running \<and>
         schedule (fst (monitorAllChecksStatus fuel prUrl st env)) =
           concat (replicate fuel [Poll, Wait 20000])) \<and>
      ((prUrl = Some u \<or> (prUrl = None \<or> prUrl = Some []) \<and> (\<forall>i. picked (env i) = Chosen u)) \<and>
       (\<forall>i. fetch_fails (env i)) \<longrightarrow>
         snd (monitorAllChecksStatus_discover fuel prUrl st env) = Running \<and>
         schedule (fst (monitorAllChecksStatus_discover fuel prUrl st env)) =
           concat (replicate fuel [Poll, Wait 20000])))"
proof -
  have G1: "monitor_loop (Suc fuel) prUrl st env n =
        prepend [Print (CheckHeader (Suc n)), Poll, Print ErrorRetry, Print Waiting, Wait 20000]
          (monitor_loop fuel prUrl st env (Suc n))"
    if "checkAllChecksStatus prUrl (gh_out (env (Suc n))) = Inl e'" for e'
    using that by (rule monitor_loop_error [where env=env and n=n])
  have G2: "monitor_loop_discover (Suc fuel) prUrl st env n =
        prepend [Print (CheckHeader (Suc n)), Poll, Print ErrorRetry, Print Waiting, Wait 20000]
          (monitor_loop_discover fuel prUrl st env (Suc n)) \<and>
      monitor_loop_repeat (Suc fuel) prUrl st env n =
        ([Print (CheckHeader (Suc n)), Poll, Print ErrorExit], Exited 1)"
    if "checkAllChecksStatus_discover prUrl (picked (env (Suc n))) (gh_out (env (Suc n))) =
      Return (Inl e')" for e'
    using monitor_loop_discover_error [where env=env and n=n, OF that]
      monitor_loop_repeat_error [where env=env and n=n, OF that]
    by blast
  have D: "(prUrl = Some u \<and> fetch_fails (env (Suc n)) \<longrightarrow>
         monitor_loop (Suc fuel) prUrl st env n =
           prepend [Print (CheckHeader (Suc n)), Poll, Print ErrorRetry, Print Waiting, Wait 20000]
             (monitor_loop fuel prUrl st env (Suc n))) \<and>
      ((prUrl = Some u \<or> (prUrl = None \<or> prUrl = Some []) \<and> picked (env (Suc n)) = Chosen u) \<and>
       fetch_fails (env (Suc n)) \<longrightarrow>
         monitor_loop_discover (Suc fuel) prUrl st env n =
           prepend [Print (CheckHeader (Suc n)), Poll, Print ErrorRetry, Print Waiting, Wait 20000]
             (monitor_loop_discover fuel prUrl st env (Suc n)) \<and>
         monitor_loop_repeat (Suc fuel) prUrl st env n =
           ([Print (CheckHeader (Suc n)), Poll, Print ErrorExit], Exited 1)) \<and>
      (prUrl = Some u \<and> (\<forall>i. fetch_fails (env i)) \<longrightarrow>
         snd (monitorAllChecksStatus fuel prUrl st env) = Running \<and>
         schedule (fst (monitorAllChecksStatus fuel prUrl st env)) =
           concat (replicate fuel [Poll, Wait 20000])) \<and>
      ((prUrl = Some u \<or> (prUrl = None \<or> prUrl = Some []) \<and> (\<forall>i. picked (env i) = Chosen u)) \<and>
       (\<forall>i. fetch_fails (env i)) \<longrightarrow>
         snd (monitorAllChecksStatus_discover fuel prUrl st env) = Running \<and>
         schedule (fst (monitorAllChecksStatus_discover fuel prUrl st env)) =
           concat (replicate fuel [Poll, Wait 20000]))"
    if u: "u \<noteq> []" "match_pull u \<noteq> None"
  proof (intro conjI impI)
    assume h: "prUrl = Some u \<and> fetch_fails (env (Suc n))"
    then have "\<exists>e'. checkAllChecksStatus prUrl (gh_out (env (Suc n))) = Inl e'"
      using fetch_fails_error [OF u, of "env (Suc n)"] by blast
    then show "monitor_loop (Suc fuel) prUrl st env n =
           prepend [Print (CheckHeader (Suc n)), Poll, Print ErrorRetry, Print Waiting, Wait 20000]
             (monitor_loop fuel prUrl st env (Suc n))"
      using G1 by blast
  next
    assume h: "(prUrl = Some u \<or> (prUrl = None \<or> prUrl = Some []) \<and> picked (env (Suc n)) = Chosen u) \<and>
       fetch_fails (env (Suc n))"
    then have x: "\<exists>e'. checkAllChecksStatus_discover prUrl (picked (env (Suc n)))
                     (gh_out (env (Suc n))) = Return (Inl e')"
      using fetch_fails_discover [OF u, of "env (Suc n)" prUrl] by blast
    from x G2 show "monitor_loop_discover (Suc fuel) prUrl st env n =
           prepend [Print (CheckHeader (Suc n)), Poll, Print ErrorRetry, Print Waiting, Wait 20000]
             (monitor_loop_discover fuel prUrl st env (Suc n))"
      by blast
    from x G2 show "monitor_loop_repeat (Suc fuel) prUrl st env n =
           ([Print (CheckHeader (Suc n)), Poll, Print ErrorExit], Exited 1)"
      by blast
  next
    assume h: "prUrl = Some u \<and> (\<forall>i. fetch_fails (env i))"
    then have 1: "\<forall>i. \<exists>e'. checkAllChecksStatus prUrl (gh_out (env i)) = Inl e'"
      using fetch_fails_error [OF u] by blast
    have r: "snd (monitorAllChecksStatus fuel prUrl st env) = Running \<and>
         schedule (fst (monitorAllChecksStatus fuel prUrl st env)) =
           concat (replicate fuel [Poll, Wait 20000])"
      using monitor_loop_always_failing [OF 1, of fuel st 0]
      by (simp add: monitorAllChecksStatus_def fst_prepend snd_prepend schedule_Cons)
    from r show "snd (monitorAllChecksStatus fuel prUrl st env) = Running" by blast
    from r show "schedule (fst (monitorAllChecksStatus fuel prUrl st env)) =
           concat (replicate fuel [Poll, Wait 20000])" by blast
  next
    assume h: "(prUrl = Some u \<or> (prUrl = None \<or> prUrl = Some []) \<and> (\<forall>i. picked (env i) = Chosen u)) \<and>
       (\<forall>i. fetch_fails (env i))"
    have 2: "\<forall>i. \<exists>e'. checkAllChecksStatus_discover prUrl (picked (env i)) (gh_out (env i)) =
               Return (Inl e')"
    proof
      fix i
      from h have "fetch_fails (env i)"
        and "prUrl = Some u \<or> (prUrl = None \<or> prUrl = Some []) \<and> picked (env i) = Chosen u"
        by blast+
      then show "\<exists>e'. checkAllChecksStatus_discover prUrl (picked (env i)) (gh_out (env i)) =
               Return (Inl e')"
        using fetch_fails_discover [OF u, of "env i" prUrl] by blast
    qed
    have r: "snd (monitorAllChecksStatus_discover fuel prUrl st env) = Running \<and>
         schedule (fst (monitorAllChecksStatus_discover fuel prUrl st env)) =
           concat (replicate fuel [Poll, Wait 20000])"
      using monitor_loop_discover_always_failing [OF 2, of fuel st 0]
      by (simp add: monitorAllChecksStatus_discover_def fst_prepend snd_prepend schedule_Cons)
    from r show "snd (monitorAllChecksStatus_discover fuel prUrl st env) = Running" by blast
    from r show "schedule (fst (monitorAllChecksStatus_discover fuel prUrl st env)) =
           concat (replicate fuel [Poll, Wait 20000])" by blast
  qed
  show ?thesis
    using G1 [of e] G2 [of e] D by blast
qed

theorem poll_error_retries_or_exits_witness:
  "sample_url \<noteq> [] \<and> match_pull sample_url \<noteq> None \<and>
   (\<forall>i. fetch_fails (failing_polls i)) \<and> (\<forall>i. fetch_fails (discovered_polls i)) \<and>
   (\<forall>i. picked (discovered_polls i) = Chosen sample_url) \<and>
   monitor_loop (Suc 1) (Some sample_url) 0 failing_polls 0 =
     prepend [Print (CheckHeader (Suc 0)), Poll, Print ErrorRetry, Print Waiting, Wait 20000]
       (monitor_loop 1 (Some sample_url) 0 failing_polls (Suc 0)) \<and>
   snd (monitorAllChecksStatus 1 (Some sample_url) 0 failing_polls) = Running \<and>
   schedule (fst (monitorAllChecksStatus 1 (Some sample_url) 0 failing_polls)) =
     [Poll, Wait 20000] \<and>
   monitor_loop_discover (Suc 1) None 0 discovered_polls 0 =
     prepend [Print (CheckHeader (Suc 0)), Poll, Print ErrorRetry, Print Waiting, Wait 20000]
       (monitor_loop_discover 1 None 0 discovered_polls (Suc 0)) \<and>
   monitor_loop_repeat (Suc 1) None 0 discovered_polls 0 =
     ([Print (CheckHeader (Suc 0)), Poll, Print ErrorExit], Exited 1) \<and>
   snd (monitorAllChecksStatus_discover 1 None 0 discovered_polls) = Running \<and>
   schedule (fst (monitorAllChecksStatus_discover 1 None 0 discovered_polls)) =
     [Poll, Wait 20000]"
proof -
  have u: "sample_url \<noteq> []" "match_pull sample_url \<noteq> None"
    by code_simp+
  have f: "\<forall>i. fetch_fails (failing_polls i)"
    by (simp add: fetch_fails_def failing_polls_def sample_input_def)
  have g: "\<forall>i. fetch_fails (discovered_polls i)"
    by (simp add: fetch_fails_def discovered_polls_def)
  have p: "\<forall>i. picked (discovered_polls i) = Chosen sample_url"
    by (simp add: discovered_polls_def)
  note a = poll_error_retries_or_exits [where u=sample_url and prUrl="Some sample_url"
      and env=failing_polls and n=0 and fuel=1 and st=0]
  note b = poll_error_retries_or_exits [where u=sample_url and prUrl=None
      and env=discovered_polls and n=0 and fuel=1 and st=0]
  show ?thesis
    using u f g p a b by simp
qed

section \<open>Single mode and snapshots without a listed state\<close>

text \<open>
  C7, as the claim states it, fails in \<^verbatim>\<open>index.js\<close>: in single mode with a fetch that
  fails, or with a reference that does not match, \<^verbatim>\<open>checkAllChecksStatus\<close> returns the
  error object and the process ends with exit code 0, not 1.
\<close>

theorem single_mode_exit_counterexample:
  "gh_out (failing_polls 1) = CommandFailed \<and>
   checkAllChecksStatus (argv_prUrl [''node'', ''index.js'', sample_url, ''--single''])
     (gh_out (failing_polls 1)) = Inl FetchError \<and>
   exit_code (snd (main_index [''node'', ''index.js'', sample_url, ''--single''] 1 0
     failing_polls)) = Some 0 \<and>
   checkAllChecksStatus (argv_prUrl [''node'', ''index.js'', ''pull-12'', ''--single''])
     (gh_out (failing_polls 1)) = Inl InvalidReference \<and>
   exit_code (snd (main_index [''node'', ''index.js'', ''pull-12'', ''--single''] 1 0
     failing_polls)) = Some 0 \<and>
   exit_code (snd (main_index [''node'', ''index.js'', sample_url, ''--single''] 1 0
     failing_polls)) \<noteq> Some 1"
proof -
  have g: "gh_out (failing_polls 1) = CommandFailed"
    by (simp add: failing_polls_def sample_input_def)
  have a: "checkAllChecksStatus (argv_prUrl [''node'', ''index.js'', sample_url, ''--single''])
             CommandFailed = Inl FetchError"
    by code_simp
  have b: "checkAllChecksStatus (argv_prUrl [''node'', ''index.js'', ''pull-12'', ''--single''])
             CommandFailed = Inl InvalidReference"
    by code_simp
  have c: "exit_code (snd (main_index [''node'', ''index.js'', sample_url, ''--single''] 1 0
     failing_polls)) = Some 0"
    by (simp add: main_index_def Let_def split: sum.splits)
  have d: "exit_code (snd (main_index [''node'', ''index.js'', ''pull-12'', ''--single''] 1 0
     failing_polls)) = Some 0"
    by (simp add: main_index_def Let_def split: sum.splits)
  show ?thesis unfolding g using a b c d by simp
qed

text \<open>
  C7, amended. In single mode of \<^verbatim>\<open>index.js\<close> the script runs to its end and the
  process ends with exit code 0 whatever the one call of \<^verbatim>\<open>checkAllChecksStatus\<close>
  returns; a supplied reference that does not match makes the call return the error
  object, and so does a fetch that fails.
\<close>

theorem single_mode_exit_code:
  "''--single'' \<in> set argv \<Longrightarrow>
     snd (main_index argv fuel st env) = Returned \<and>
     exit_code (snd (main_index argv fuel st env)) = Some 0 \<and>
     (argv_prUrl argv = Some u \<and> u \<noteq> [] \<and> match_pull u = None \<longrightarrow>
        checkAllChecksStatus (argv_prUrl argv) out = Inl InvalidReference) \<and>
     (argv_prUrl argv = Some u \<and> u \<noteq> [] \<and> match_pull u \<noteq> None \<longrightarrow>
        checkAllChecksStatus (argv_prUrl argv) CommandFailed = Inl FetchError)"
proof -
  assume s: "''--single'' \<in> set argv"
  have a: "snd (main_index argv fuel st env) = Returned"
    using s by (simp add: main_index_def Let_def split: sum.splits)
  have c: "checkAllChecksStatus (argv_prUrl argv) out = Inl InvalidReference"
    if "argv_prUrl argv = Some u \<and> u \<noteq> [] \<and> match_pull u = None"
    using that by (simp add: checkAllChecksStatus_def check_url_def)
  have d: "checkAllChecksStatus (argv_prUrl argv) CommandFailed = Inl FetchError"
    if "argv_prUrl argv = Some u \<and> u \<noteq> [] \<and> match_pull u \<noteq> None"
    using that by (auto simp: checkAllChecksStatus_def check_url_def)
  show ?thesis using a c d by simp
qed

theorem single_mode_exit_code_witness:
  "''--single'' \<in> set [''node'', ''index.js'', sample_url, ''--single''] \<and>
   argv_prUrl [''node'', ''index.js'', sample_url, ''--single''] = Some sample_url \<and>
   sample_url \<noteq> [] \<and> match_pull sample_url \<noteq> None \<and>
   checkAllChecksStatus (Some sample_url) CommandFailed = Inl FetchError \<and>
   exit_code (snd (main_index [''node'', ''index.js'', sample_url, ''--single''] 1 0
     failing_polls)) = Some 0 \<and>
   ''--single'' \<in> set [''node'', ''index.js'', ''pull-12'', ''--single''] \<and>
   match_pull ''pull-12'' = None \<and>
   checkAllChecksStatus (Some ''pull-12'') (Listing []) = Inl InvalidReference \<and>
   exit_code (snd (main_index [''node'', ''index.js'', ''pull-12'', ''--single''] 1 0
     failing_polls)) = Some 0"
proof -
  let ?argv = "[''node'', ''index.js'', sample_url, ''--single'']"
  let ?bad = "[''node'', ''index.js'', ''pull-12'', ''--single'']"
  have s: "''--single'' \<in> set ?argv" by simp
  have s': "''--single'' \<in> set ?bad" by simp
  have p: "argv_prUrl ?argv = Some sample_url" by (simp add: argv_prUrl_def)
  have p': "argv_prUrl ?bad = Some ''pull-12''" by (simp add: argv_prUrl_def)
  have u: "sample_url \<noteq> []" "match_pull sample_url \<noteq> None" by code_simp+
  have u': "match_pull ''pull-12'' = None" by code_simp
  show ?thesis
    using s s' p p' u u'
      single_mode_exit_code [OF s, where u=sample_url and fuel=1 and st=0 and env=failing_polls]
      single_mode_exit_code [OF s', where u="''pull-12''" and fuel=1 and st=0
        and env=failing_polls and out="Listing []"]
    by simp
qed


lemma absent_state_unlisted: "state c = None \<or> state c = Some [] \<Longrightarrow> in_bucket Unlisted c"
  by (auto simp: in_bucket_def status_of_def or_default_def classify_def toLowerCase_def
      lower_char_def)

lemma unlisted_filters:
  "\<forall>c \<in> set cs. in_bucket Unlisted c \<Longrightarrow>
   filter (in_bucket Pending) cs = [] \<and> filter (in_bucket Failure) cs = [] \<and>
   filter (in_bucket Success) cs = []"
  by (auto simp: filter_empty_conv in_bucket_def)

text \<open>
  C10. For a non-empty list of checks whose states are all outside the table (a missing or
  empty state is replaced by \<open>unknown\<close>, which is outside the table), the snapshot has
  \<open>completed\<close> true, \<open>hasFailures\<close> false and three empty lists; the monitor loop of
  \<^verbatim>\<open>index.js\<close> that gets this list at its first poll returns after sending the one
  notification of type \<open>success\<close>.
\<close>

theorem all_unlisted_is_success:
  "cs \<noteq> [] \<Longrightarrow> \<forall>c \<in> set cs. in_bucket Unlisted c \<Longrightarrow>
     (\<forall>c. state c = None \<or> state c = Some [] \<longrightarrow> status_of c = ''unknown'' \<and> in_bucket Unlisted c) \<and>
     (\<exists>r. aggregate pn cs = Inr r \<and> completed r \<and> \<not> hasFailures r \<and>
          pending (summary r) = [] \<and> completedNames (summary r) = [] \<and>
          failed (summary r) = [] \<and> total (summary r) = length cs) \<and>
     (u \<noteq> [] \<and> match_pull u = Some pn \<and> gh_out (env 1) = Listing cs \<and> 0 < fuel \<longrightarrow>
        snd (monitorAllChecksStatus fuel (Some u) st env) = Returned \<and>
        notifications (fst (monitorAllChecksStatus fuel (Some u) st env)) =
          [SendNotification
             (''All checks completed successfully for PR #'' @ pn @ [CHR 0x0A] @
              ''Completed in '' @ formatDuration st (now (env 1)))
             ''success''])"
proof -
  assume ne: "cs \<noteq> []" and un: "\<forall>c \<in> set cs. in_bucket Unlisted c"
  let ?r = "\<lparr>completed = True, hasFailures = False, checks = cs, prNumber = pn,
             summary = \<lparr>total = length cs, pending = [], completedNames = [], failed = []\<rparr>\<rparr>"
  have agg: "aggregate pn cs = Inr ?r"
    using unlisted_filters [OF un] by (simp add: aggregate_closed [OF ne])
  have st: "\<forall>c. state c = None \<or> state c = Some [] \<longrightarrow>
              status_of c = ''unknown'' \<and> in_bucket Unlisted c"
    using absent_state_unlisted by (auto simp: status_of_def or_default_def)
  have loop: "snd (monitorAllChecksStatus fuel (Some u) st env) = Returned \<and>
        notifications (fst (monitorAllChecksStatus fuel (Some u) st env)) =
          [SendNotification
             (''All checks completed successfully for PR #'' @ pn @ [CHR 0x0A] @
              ''Completed in '' @ formatDuration st (now (env 1)))
             ''success'']"
    if h: "u \<noteq> [] \<and> match_pull u = Some pn \<and> gh_out (env 1) = Listing cs \<and> 0 < fuel"
  proof -
    have c: "checkAllChecksStatus (Some u) (gh_out (env (0 + 1))) = Inr ?r"
      using h agg by (simp add: checkAllChecksStatus_def check_url_def)
    have "\<forall>i. (0::nat) < i \<and> i < 0 + 1 \<longrightarrow> \<not> finished (Some u) (env i)"
      by simp
    from monitor_loop_reaches [where n=0 and k=1 and fuel=fuel and st=st, OF this c] h
    have "snd (monitor_loop fuel (Some u) st env 0) = Returned \<and>
          notifications (fst (monitor_loop fuel (Some u) st env 0)) =
            [final_notification st (now (env 1)) ?r]"
      by simp
    then show ?thesis
      by (simp add: monitorAllChecksStatus_def fst_prepend snd_prepend notifications_Cons
          final_notification_def completed_in_def success_message_def)
  qed
  show ?thesis using agg st loop by simp
qed

theorem all_unlisted_is_success_witness:
  "(\<exists>r. aggregate ''12'' [sample_check ''lint'' (Some ''SKIPPED''), sample_check ''docs'' None] = Inr r \<and>
        completed r \<and> \<not> hasFailures r \<and> total (summary r) = 2) \<and>
   snd (monitorAllChecksStatus 1 (Some sample_url) 0 unlisted_polls) = Returned \<and>
   notifications (fst (monitorAllChecksStatus 1 (Some sample_url) 0 unlisted_polls)) =
     [SendNotification
        (''All checks completed successfully for PR #12'' @ [CHR 0x0A] @ ''Completed in 5s'')
        ''success'']"
proof -
  let ?cs = "[sample_check ''lint'' (Some ''SKIPPED''), sample_check ''docs'' None]"
  let ?env = "unlisted_polls"
  have ne: "?cs \<noteq> []" by simp
  have a: "in_bucket Unlisted (sample_check ''lint'' (Some ''SKIPPED''))"
    by code_simp
  have b: "in_bucket Unlisted (sample_check ''docs'' None)"
    by code_simp
  have un: "\<forall>c \<in> set ?cs. in_bucket Unlisted c"
    using a b by simp
  have u: "sample_url \<noteq> []" "match_pull sample_url = Some ''12''"
    by code_simp+
  have d: "formatDuration 0 5000 = ''5s''" by code_simp
  have g: "gh_out (?env 1) = Listing ?cs" "now (?env 1) = 5000"
    by (simp_all add: unlisted_polls_def sample_input_def)
  show ?thesis
    using all_unlisted_is_success [OF ne un, where pn="''12''" and u=sample_url and env="?env"
        and fuel=1 and st=0] u g d
    by (auto simp: numeral_2_eq_2)
qed

end
